theory Spec2Isabelle
  imports Complex_Main "HOL-Library.Word" "HOL-Library.Signed_Division"
begin

section \<open>Data model of package coil\<close>

text \<open>
  The controller is written in Go. Embedded below are package \<open>coil\<close> (\<open>NewCoil\<close>,
  \<open>Run\<close>, \<open>updateTemp\<close>, \<open>OnOff\<close>, \<open>trimTest\<close>) and the run loop of package \<open>hub\<close>; the
  callers in \<open>main\<close> and in the HTTP server appear as the environment's actions. What the
  code calls from other libraries is a parameter of the model:
  \<^item> \<open>float64\<close> values are an abstract type \<open>'f\<close>; the floating-point operations,
    \<open>strconv.ParseFloat\<close>, \<open>strconv.ParseInt\<close>, \<open>strings.TrimRightFunc\<close> and
    \<open>unicode.IsNumber\<close> are fields of the record \<open>lib\<close>;
  \<^item> \<open>*pidctrl.PIDController\<close> is an abstract state \<open>'p\<close> with its methods in \<open>lib\<close>;
  \<^item> \<open>int64\<close> and \<open>time.Duration\<close> are 64-bit words (arithmetic wraps, division is
    signed and truncates, as in Go);
  \<^item> \<open>time.Time\<close> values are natural numbers handed in by the environment.
  Logging is left out, and a panic raised inside a library is not modelled.
\<close>

type_synonym int64 = "64 word"
type_synonym Duration = "64 word"
type_synonym Time = nat
type_synonym rune = nat

datatype error =
    ReadError | NumError | WriteError | EnvError string | OpenError | MarshalError

record ('f, 'p) lib =
  IsNumber :: "rune \<Rightarrow> bool"
  TrimRightFunc :: "string \<Rightarrow> (rune \<Rightarrow> bool) \<Rightarrow> string"
  ParseFloat :: "string \<Rightarrow> error + 'f"
  ParseInt :: "string \<Rightarrow> error + int64"
  fconst :: "rat \<Rightarrow> 'f"
  fadd :: "'f \<Rightarrow> 'f \<Rightarrow> 'f"
  fsub :: "'f \<Rightarrow> 'f \<Rightarrow> 'f"
  fmul :: "'f \<Rightarrow> 'f \<Rightarrow> 'f"
  fabs :: "'f \<Rightarrow> 'f"
  fge :: "'f \<Rightarrow> 'f \<Rightarrow> bool"
  float64_of_int64 :: "int64 \<Rightarrow> 'f"
  Duration_of_float64 :: "'f \<Rightarrow> Duration"
  NewPIDController :: "'f \<Rightarrow> 'f \<Rightarrow> 'f \<Rightarrow> 'p"
  SetOutputLimits :: "'f \<Rightarrow> 'f \<Rightarrow> 'p \<Rightarrow> 'p"
  pid_Set :: "'f \<Rightarrow> 'p \<Rightarrow> 'p"
  pid_Get :: "'p \<Rightarrow> 'f"
  pid_Update :: "Time \<Rightarrow> 'f \<Rightarrow> 'p \<Rightarrow> 'f \<times> 'p"

text \<open>\<open>var MaxTempDiff float64 = 100.0\<close>\<close>

definition MaxTempDiff :: "('f, 'p) lib \<Rightarrow> 'f" where
  "MaxTempDiff L = fconst L 100"

text \<open>\<open>time.Millisecond\<close>, in nanoseconds, and \<open>Duration.Milliseconds\<close>.\<close>

definition Millisecond :: Duration where
  "Millisecond = 1000000"

definition Milliseconds :: "Duration \<Rightarrow> int64" where
  "Milliseconds d = word_of_int (sint d sdiv 1000000)"

text \<open>
  \<open>CoilFrame\<close>; its fields \<open>Temp\<close> and \<open>FireTime\<close> are called \<open>Temp_frame\<close> and
  \<open>FireTime_frame\<close> here, since \<open>Coil\<close> has fields of the same names.
\<close>

record 'f CoilFrame =
  Temp_frame :: 'f
  Target :: 'f
  FrameStart :: Time
  FrameDuration :: int64
  FireTime_frame :: int64

text \<open>
  The fields of \<open>Coil\<close> that hold data. The device files, the channels and the wait
  group are part of the system state further down.
\<close>

record ('f, 'p) Coil =
  tempb :: string
  statb :: string
  window :: Duration
  pid :: 'p
  nonInitialRun :: bool
  Running :: bool
  Temp :: 'f
  LastUpdated :: Time
  Firing :: bool
  FireTime :: Duration
  CurrentFrame :: "'f CoilFrame"

section \<open>Sampling the sensor\<close>

text \<open>
  What one \<open>tempf.Read(tempb)\<close> does: it stores the bytes it read at the front of the
  buffer and may return an error. Bytes of the buffer beyond those read keep their old
  contents.
\<close>

record read_outcome =
  rd_bytes :: string
  rd_err :: "error option"

definition file_Read :: "read_outcome \<Rightarrow> string \<Rightarrow> string" where
  "file_Read r buf =
     take (length buf) (rd_bytes r) @ drop (length (rd_bytes r)) buf"

definition trimTest :: "('f, 'p) lib \<Rightarrow> rune \<Rightarrow> bool" where
  "trimTest L c = (\<not> IsNumber L c)"

definition updateTemp ::
  "('f, 'p) lib \<Rightarrow> read_outcome \<Rightarrow> Time \<Rightarrow> ('f, 'p) Coil \<Rightarrow> error option \<times> ('f, 'p) Coil"
where
  "updateTemp L r now c =
     (let c1 = c\<lparr>tempb := file_Read r (tempb c)\<rparr> in
      case rd_err r of
        Some e \<Rightarrow> (Some e, c1)
      | None \<Rightarrow>
          (case ParseFloat L (TrimRightFunc L (tempb c1) (trimTest L)) of
             Inl e \<Rightarrow> (Some e, c1)
           | Inr t \<Rightarrow>
               (None, c1\<lparr>Temp := fadd L (fmul L (fconst L (9 / 20)) t) (fconst L 32),
                          LastUpdated := now\<rparr>)))"

section \<open>Construction\<close>

text \<open>
  \<open>NewCoil\<close> reads the controller gains and the window length from the environment,
  builds the controller with output limits \<open>0\<close> and \<open>max - 15\<close>, and opens the two device
  files. \<open>getenv\<close> is \<open>os.Getenv\<close>; \<open>open_temp\<close> and \<open>open_stat\<close> say whether the two
  \<open>os.OpenFile\<close> calls succeed.
\<close>

text \<open>\<open>make([]byte, 6)\<close> and \<open>make([]byte, 3)\<close>\<close>

definition zero_bytes6 :: string where
  "zero_bytes6 = [CHR 0x00, CHR 0x00, CHR 0x00, CHR 0x00, CHR 0x00, CHR 0x00]"

definition zero_bytes3 :: string where
  "zero_bytes3 = [CHR 0x00, CHR 0x00, CHR 0x00]"

definition zero_frame :: "('f, 'p) lib \<Rightarrow> 'f CoilFrame" where
  "zero_frame L =
     \<lparr>Temp_frame = fconst L 0, Target = fconst L 0, FrameStart = 0,
      FrameDuration = 0, FireTime_frame = 0\<rparr>"

definition NewCoil ::
  "('f, 'p) lib \<Rightarrow> (string \<Rightarrow> string) \<Rightarrow> bool \<Rightarrow> bool \<Rightarrow> error + ('f, 'p) Coil"
where
  "NewCoil L getenv open_temp open_stat =
     (case ParseFloat L (getenv ''PI_HEATER_PID_P'') of
        Inl e \<Rightarrow> Inl (EnvError ''PI_HEATER_PID_P'')
      | Inr p \<Rightarrow>
     (case ParseFloat L (getenv ''PI_HEATER_PID_I'') of
        Inl e \<Rightarrow> Inl (EnvError ''PI_HEATER_PID_I'')
      | Inr i \<Rightarrow>
     (case ParseFloat L (getenv ''PI_HEATER_PID_D'') of
        Inl e \<Rightarrow> Inl (EnvError ''PI_HEATER_PID_D'')
      | Inr d \<Rightarrow>
     (case ParseInt L (getenv ''PI_HEATER_PID_MAX'') of
        Inl e \<Rightarrow> Inl (EnvError ''PI_HEATER_PID_MAX'')
      | Inr max64 \<Rightarrow>
          (let adjustedMax = float64_of_int64 L (max64 - 15);
               c = \<lparr>tempb = zero_bytes6, statb = zero_bytes3,
                    window = max64 * Millisecond,
                    pid = SetOutputLimits L (fconst L 0) adjustedMax (NewPIDController L p i d),
                    nonInitialRun = False, Running = False, Temp = fconst L 0,
                    LastUpdated = 0, Firing = False, FireTime = 0,
                    CurrentFrame = zero_frame L\<rparr>
           in if \<not> open_temp then Inl OpenError
              else if \<not> open_stat then Inl OpenError
              else Inr c)))))"

section \<open>The goroutines of the control loop\<close>

text \<open>
  The run loop, the pulse goroutines it starts (one per tick, running \<open>OnOff\<close>) and the
  frame goroutines it starts (one per tick) are concurrent. The model is an interleaving
  of their steps. All channels of \<open>Coil\<close> are made without a capacity, so a send
  completes only together with a receive of another goroutine that is waiting on the same
  channel.

  \<open>Run\<close> declares one variable \<open>err\<close>. The loop assigns it the result of \<open>updateTemp\<close>
  and of the last \<open>statf.Write\<close> and tests it after each; every pulse goroutine assigns
  it the result of its \<open>OnOff\<close> and tests it. Nothing orders these accesses, so \<open>err\<close>
  is a field of the state and each access is the start of a step of its own: a
  goroutine's step runs up to its next blocking operation (a receive in a \<open>select\<close>, a
  send, a timer) or up to its next access of \<open>err\<close>. Between the call that produces a
  value and its assignment to \<open>err\<close>, and between the assignment and the test, any other
  goroutine may run.

  What the goroutines share besides the channels and \<open>err\<close> is read and written at the
  moment of the step that uses it: a frame goroutine reads \<open>c.Temp\<close>, the target and
  \<open>c.FireTime\<close> when it builds its frame, a pulse goroutine reads \<open>c.FireTime\<close> when it
  starts; a call of a method of the controller is one event.

  Where the run loop stands:
\<close>

datatype 'f loop_loc =
    Idle
  | AtSelect
  | AssignErr 'f "error option"
  | TestErr 'f
  | SendStopRead 'f
  | SendStopJump
  | SendCancel
  | AssignErrStop "error option"
  | TestErrStop
  | Returned
  | Panicked

text \<open>
  \<open>AssignErr oldTemp e\<close>: \<open>updateTemp\<close> has returned \<open>e\<close>, which is about to be assigned
  to \<open>err\<close>; \<open>TestErr oldTemp\<close>: the loop is about to test \<open>err\<close>.
  \<open>SendStopRead oldTemp\<close> is the send \<open>c.Stop <- struct{}{}\<close> after that test,
  \<open>SendStopJump\<close> the one after the temperature check, \<open>SendCancel\<close> the send
  \<open>cancelOnOff <- struct{}{}\<close> of the stop branch. \<open>AssignErrStop e\<close>: the write of
  \<open>"0"\<close> in the stop branch has returned \<open>e\<close>; \<open>TestErrStop\<close>: the loop is about to
  test \<open>err\<close> there.

  A pulse goroutine has been started (\<open>PSpawned\<close>), waits in the \<open>select\<close> of \<open>OnOff\<close>
  for its timer or for a cancel (\<open>PWaiting d\<close>), has come back from \<open>OnOff\<close> with a
  result that it is about to assign to \<open>err\<close> (\<open>PAssign e\<close>), is about to test \<open>err\<close>
  (\<open>PTest\<close>), is sending on \<open>c.Stop\<close> (\<open>PSendStop\<close>), or has ended.
\<close>

datatype pulse =
    PSpawned
  | PWaiting Duration
  | PAssign "error option"
  | PTest
  | PSendStop
  | PDone

text \<open>
  A frame goroutine has been started with \<open>frameStart\<close> (\<open>FSpawned\<close>), has built its frame
  and waits in its \<open>select\<close> to receive from or send on \<open>CurrentFrameChan\<close> (\<open>FSelect\<close>),
  has received and is now sending its frame (\<open>FSend\<close>), or has ended.
\<close>

datatype 'f framer = FSpawned Time | FSelect "'f CoilFrame" | FSend "'f CoilFrame" | FDone

record ('f, 'p) sys =
  coil :: "('f, 'p) Coil"
  err :: "error option"
  loc :: "'f loop_loc"
  pulses :: "pulse list"
  framers :: "'f framer list"
  stop_senders :: nat
  statf_written :: string
  statf_closes :: nat
  tempf_closes :: nat
  wg :: int
  hub_recv :: "'f CoilFrame list"
  published :: "'f CoilFrame list"
  updates :: nat

text \<open>
  \<open>err\<close> is the variable of \<open>Run\<close> (\<open>nil\<close> at first). \<open>stop_senders\<close> counts the
  goroutines outside the package that are blocked in \<open>c.Stop <- struct{}{}\<close> (the two
  places in \<open>main\<close>). \<open>statf_written\<close> is what has been written to the actuator file so
  far, \<open>hub_recv\<close> the frames the hub has received from \<open>CurrentFrameChan\<close>,
  \<open>published\<close> the frames built by frame goroutines, \<open>updates\<close> the number of calls of
  \<open>pid.Update\<close>.
\<close>

definition sys_of :: "('f, 'p) Coil \<Rightarrow> ('f, 'p) sys" where
  "sys_of c =
     \<lparr>coil = c, err = None, loc = Idle, pulses = [], framers = [], stop_senders = 0,
      statf_written = [], statf_closes = 0, tempf_closes = 0, wg = 0,
      hub_recv = [], published = [], updates = 0\<rparr>"

text \<open>
  \<open>statf.Write\<close>: \<open>ok\<close> is whether the device accepts the write; a write to a closed file
  fails. The result is the error the call returns.
\<close>

definition statf_Write :: "char \<Rightarrow> bool \<Rightarrow> ('f, 'p) sys \<Rightarrow> error option \<times> ('f, 'p) sys" where
  "statf_Write b ok s =
     (if ok \<and> statf_closes s = 0 then (None, s\<lparr>statf_written := statf_written s @ [b]\<rparr>)
      else (Some WriteError, s))"

definition pid_Set0 :: "('f, 'p) lib \<Rightarrow> ('f, 'p) sys \<Rightarrow> ('f, 'p) sys" where
  "pid_Set0 L s = s\<lparr>coil := (coil s)\<lparr>pid := pid_Set L (fconst L 0) (pid (coil s))\<rparr>\<rparr>"

subsection \<open>The timer branch of \<open>Run\<close>\<close>

text \<open>
  The branch is cut at the assignment of \<open>err\<close>, at the test of \<open>err\<close>, and at the two
  sends on \<open>c.Stop\<close> at which the loop may block. \<open>tick_sample\<close> is the receive from
  \<open>clock\<close> and the call of \<open>updateTemp\<close>; \<open>tick_assign\<close> the assignment
  \<open>err = ...\<close>; \<open>tick_test\<close> the test \<open>if err != nil\<close> and what follows it up to the next
  send or to the end of the branch. \<open>tick_check\<close> is the branch from the temperature
  check on, \<open>tick_rest\<close> from \<open>c.nonInitialRun = true\<close> on.
\<close>

definition tick_rest :: "('f, 'p) lib \<Rightarrow> Time \<Rightarrow> ('f, 'p) sys \<Rightarrow> ('f, 'p) sys" where
  "tick_rest L now s =
     (let c = coil s;
          (out, p') = pid_Update L now (Temp c) (pid c);
          c' = c\<lparr>nonInitialRun := True, pid := p',
                 FireTime := Duration_of_float64 L out * Millisecond\<rparr>
      in s\<lparr>coil := c', loc := AtSelect, updates := updates s + 1,
            pulses := pulses s @ [PSpawned], framers := framers s @ [FSpawned now]\<rparr>)"

definition temp_jumped :: "('f, 'p) lib \<Rightarrow> 'f \<Rightarrow> ('f, 'p) Coil \<Rightarrow> bool" where
  "temp_jumped L oldTemp c =
     (fge L (fabs L (fsub L oldTemp (Temp c))) (MaxTempDiff L) \<and> nonInitialRun c)"

definition tick_check :: "('f, 'p) lib \<Rightarrow> Time \<Rightarrow> 'f \<Rightarrow> ('f, 'p) sys \<Rightarrow> ('f, 'p) sys" where
  "tick_check L now oldTemp s =
     (if temp_jumped L oldTemp (coil s) then (pid_Set0 L s)\<lparr>loc := SendStopJump\<rparr>
      else tick_rest L now s)"

definition tick_sample ::
  "('f, 'p) lib \<Rightarrow> read_outcome \<Rightarrow> Time \<Rightarrow> ('f, 'p) sys \<Rightarrow> ('f, 'p) sys"
where
  "tick_sample L r now s =
     (let oldTemp = Temp (coil s);
          (e, c1) = updateTemp L r now (coil s)
      in s\<lparr>coil := c1, loc := AssignErr oldTemp e\<rparr>)"

definition tick_assign :: "('f, 'p) sys \<Rightarrow> ('f, 'p) sys option" where
  "tick_assign s =
     (case loc s of
        AssignErr oldTemp e \<Rightarrow> Some (s\<lparr>err := e, loc := TestErr oldTemp\<rparr>)
      | _ \<Rightarrow> None)"

definition tick_test :: "('f, 'p) lib \<Rightarrow> Time \<Rightarrow> ('f, 'p) sys \<Rightarrow> ('f, 'p) sys option" where
  "tick_test L now s =
     (case loc s of
        TestErr oldTemp \<Rightarrow>
          (case err s of
             Some e \<Rightarrow> Some ((pid_Set0 L s)\<lparr>loc := SendStopRead oldTemp\<rparr>)
           | None \<Rightarrow> Some (tick_check L now oldTemp s))
      | _ \<Rightarrow> None)"

text \<open>
  The only receive from \<open>c.Stop\<close> in the program is the \<open>case <-c.Stop\<close> of the run
  loop's \<open>select\<close>: a send on \<open>c.Stop\<close> can complete only while the loop waits there.
\<close>

definition Stop_receiver_waiting :: "('f, 'p) sys \<Rightarrow> bool" where
  "Stop_receiver_waiting s = (loc s = AtSelect)"

text \<open>The loop's own send on \<open>c.Stop\<close> completes, and the timer branch goes on.\<close>

definition loop_stop_sent :: "('f, 'p) lib \<Rightarrow> Time \<Rightarrow> ('f, 'p) sys \<Rightarrow> ('f, 'p) sys option" where
  "loop_stop_sent L now s =
     (if \<not> Stop_receiver_waiting s then None
      else case loc s of
             SendStopRead oldTemp \<Rightarrow> Some (tick_check L now oldTemp s)
           | SendStopJump \<Rightarrow> Some (tick_rest L now s)
           | _ \<Rightarrow> None)"

subsection \<open>The stop branch of \<open>Run\<close>\<close>

text \<open>
  The branch sets the target to 0 and then sends on \<open>cancelOnOff\<close>. The only receive
  from that channel is in the \<open>select\<close> of \<open>OnOff\<close>, so the send completes together with
  a pulse goroutine that is waiting there; that call of \<open>OnOff\<close> returns \<open>nil\<close>. Then the
  loop writes \<open>"0"\<close> (\<open>on_cancel\<close>), assigns the result to \<open>err\<close> (\<open>stop_assign\<close>), tests
  \<open>err\<close>, panics if it is not \<open>nil\<close>, and returns (\<open>stop_test\<close>); the deferred function
  closes both files on either way out.
\<close>

definition on_stop :: "('f, 'p) lib \<Rightarrow> ('f, 'p) sys \<Rightarrow> ('f, 'p) sys" where
  "on_stop L s = (pid_Set0 L s)\<lparr>loc := SendCancel\<rparr>"

definition run_deferred :: "('f, 'p) sys \<Rightarrow> ('f, 'p) sys" where
  "run_deferred s = s\<lparr>statf_closes := statf_closes s + 1, tempf_closes := tempf_closes s + 1\<rparr>"

definition on_cancel :: "nat \<Rightarrow> bool \<Rightarrow> ('f, 'p) sys \<Rightarrow> ('f, 'p) sys option" where
  "on_cancel i ok s =
     (if loc s = SendCancel \<and> i < length (pulses s) then
        (case pulses s ! i of
           PWaiting d \<Rightarrow>
             (let (e, s1) = statf_Write (CHR ''0'') ok (s\<lparr>pulses := (pulses s)[i := PAssign None]\<rparr>)
              in Some (s1\<lparr>loc := AssignErrStop e\<rparr>))
         | _ \<Rightarrow> None)
      else None)"

definition stop_assign :: "('f, 'p) sys \<Rightarrow> ('f, 'p) sys option" where
  "stop_assign s =
     (case loc s of
        AssignErrStop e \<Rightarrow> Some (s\<lparr>err := e, loc := TestErrStop\<rparr>)
      | _ \<Rightarrow> None)"

definition stop_test :: "('f, 'p) sys \<Rightarrow> ('f, 'p) sys option" where
  "stop_test s =
     (case loc s of
        TestErrStop \<Rightarrow>
          (case err s of
             Some e \<Rightarrow> Some (run_deferred (s\<lparr>loc := Panicked\<rparr>))
           | None \<Rightarrow>
               Some (run_deferred
                       (s\<lparr>coil := (coil s)\<lparr>Firing := False, Running := False\<rparr>,
                          wg := wg s - 1, loc := Returned\<rparr>)))
      | _ \<Rightarrow> None)"

subsection \<open>Pulse goroutines: \<open>OnOff\<close>\<close>

text \<open>
  \<open>pulse_begin\<close> is the call of \<open>OnOff\<close> up to its \<open>select\<close>, or up to its return if the
  write of \<open>"1"\<close> fails; \<open>pulse_timer\<close> the timer branch of that \<open>select\<close> up to the
  return; \<open>pulse_assign\<close> the assignment \<open>err = ...\<close> in the goroutine; \<open>pulse_test\<close> the
  test \<open>if err != nil\<close> and what follows.
\<close>

definition pulse_begin :: "nat \<Rightarrow> bool \<Rightarrow> ('f, 'p) sys \<Rightarrow> ('f, 'p) sys option" where
  "pulse_begin i ok s =
     (if i < length (pulses s) \<and> pulses s ! i = PSpawned then
        (let d = FireTime (coil s);
             (e, s1) = statf_Write (CHR ''1'') ok s
         in case e of
              Some x \<Rightarrow> Some (s1\<lparr>pulses := (pulses s1)[i := PAssign (Some x)]\<rparr>)
            | None \<Rightarrow> Some (s1\<lparr>coil := (coil s1)\<lparr>Firing := True\<rparr>,
                                 pulses := (pulses s1)[i := PWaiting d]\<rparr>))
      else None)"

definition pulse_timer :: "nat \<Rightarrow> bool \<Rightarrow> ('f, 'p) sys \<Rightarrow> ('f, 'p) sys option" where
  "pulse_timer i ok s =
     (if i < length (pulses s) then
        (case pulses s ! i of
           PWaiting d \<Rightarrow>
             (let (e, s1) = statf_Write (CHR ''0'') ok s
              in Some (s1\<lparr>coil := (coil s1)\<lparr>Firing := False\<rparr>,
                          pulses := (pulses s1)[i := PAssign e]\<rparr>))
         | _ \<Rightarrow> None)
      else None)"

definition pulse_assign :: "nat \<Rightarrow> ('f, 'p) sys \<Rightarrow> ('f, 'p) sys option" where
  "pulse_assign i s =
     (if i < length (pulses s) then
        (case pulses s ! i of
           PAssign e \<Rightarrow> Some (s\<lparr>err := e, pulses := (pulses s)[i := PTest]\<rparr>)
         | _ \<Rightarrow> None)
      else None)"

definition pulse_test :: "('f, 'p) lib \<Rightarrow> nat \<Rightarrow> ('f, 'p) sys \<Rightarrow> ('f, 'p) sys option" where
  "pulse_test L i s =
     (if i < length (pulses s) \<and> pulses s ! i = PTest then
        (case err s of
           Some e \<Rightarrow> Some ((pid_Set0 L s)\<lparr>pulses := (pulses s)[i := PSendStop]\<rparr>)
         | None \<Rightarrow> Some (s\<lparr>pulses := (pulses s)[i := PDone]\<rparr>))
      else None)"

subsection \<open>Frame goroutines\<close>

definition frame_build :: "('f, 'p) lib \<Rightarrow> nat \<Rightarrow> ('f, 'p) sys \<Rightarrow> ('f, 'p) sys option" where
  "frame_build L j s =
     (if j < length (framers s) then
        (case framers s ! j of
           FSpawned frameStart \<Rightarrow>
             (let c = coil s;
                  frame = \<lparr>Temp_frame = Temp c, Target = pid_Get L (pid c),
                           FrameStart = frameStart,
                           FrameDuration = Milliseconds (window c),
                           FireTime_frame = Milliseconds (FireTime c)\<rparr>
              in Some (s\<lparr>framers := (framers s)[j := FSelect frame],
                          published := published s @ [frame]\<rparr>))
         | _ \<Rightarrow> None)
      else None)"

text \<open>The frame a goroutine is offering on \<open>CurrentFrameChan\<close>, if it is sending.\<close>

fun offered :: "'f framer \<Rightarrow> 'f CoilFrame option" where
  "offered (FSelect f) = Some f"
| "offered (FSend f) = Some f"
| "offered _ = None"

definition frame_sent :: "nat \<Rightarrow> 'f CoilFrame \<Rightarrow> ('f, 'p) sys \<Rightarrow> ('f, 'p) sys" where
  "frame_sent k f s =
     s\<lparr>framers := (framers s)[k := FDone], coil := (coil s)\<lparr>CurrentFrame := f\<rparr>\<rparr>"

text \<open>The hub receives the frame goroutine \<open>k\<close> is sending.\<close>

definition frame_to_hub :: "nat \<Rightarrow> ('f, 'p) sys \<Rightarrow> ('f, 'p) sys option" where
  "frame_to_hub k s =
     (if k < length (framers s) then
        (case offered (framers s ! k) of
           Some f \<Rightarrow> Some ((frame_sent k f s)\<lparr>hub_recv := hub_recv s @ [f]\<rparr>)
         | None \<Rightarrow> None)
      else None)"

text \<open>
  Goroutine \<open>j\<close>, waiting in its \<open>select\<close>, receives what goroutine \<open>k\<close> is sending, drops
  it, and goes on to send its own frame.
\<close>

definition frame_swap :: "nat \<Rightarrow> nat \<Rightarrow> ('f, 'p) sys \<Rightarrow> ('f, 'p) sys option" where
  "frame_swap j k s =
     (if j \<noteq> k \<and> j < length (framers s) \<and> k < length (framers s) then
        (case (framers s ! j, offered (framers s ! k)) of
           (FSelect fj, Some fk) \<Rightarrow>
             Some ((frame_sent k fk s)\<lparr>framers := (framers (frame_sent k fk s))[j := FSend fj]\<rparr>)
         | _ \<Rightarrow> None)
      else None)"

subsection \<open>Steps of the system\<close>

text \<open>
  The steps, each named by what happens:
  \<^item> \<open>GoRun\<close>: \<open>main\<close> starts \<open>Run\<close>, which goes up to its \<open>select\<close>;
  \<^item> \<open>Tick r now\<close>: the loop receives from \<open>clock\<close> and calls \<open>updateTemp\<close>; \<open>r\<close> is
    what the read of the sensor file gives, \<open>now\<close> the time;
  \<^item> \<open>TickAssign\<close>: the loop assigns the result of \<open>updateTemp\<close> to \<open>err\<close>;
  \<^item> \<open>ErrTest now\<close>: the loop tests \<open>err\<close> and goes on to its next send or, through
    \<open>pid.Update\<close> and the two \<open>go\<close> statements, back to the \<open>select\<close>; \<open>now\<close> is the
    time \<open>frameStart\<close>;
  \<^item> \<open>SetTargetCmd target\<close>: the loop receives \<open>target\<close> from \<open>SetTarget\<close>;
  \<^item> \<open>StopArrive\<close>: a goroutine of \<open>main\<close> starts its send on \<open>c.Stop\<close>;
  \<^item> \<open>RecvStop src\<close>: the loop receives from \<open>c.Stop\<close> what \<open>src\<close> is sending, a
    goroutine of \<open>main\<close> or pulse goroutine \<open>i\<close>;
  \<^item> \<open>LoopStopSent now\<close>: the loop's own send on \<open>c.Stop\<close> is received;
  \<^item> \<open>Cancel i ok\<close>: pulse goroutine \<open>i\<close> receives the loop's send on \<open>cancelOnOff\<close>,
    and the loop goes on to write \<open>"0"\<close> (\<open>ok\<close>: the device accepts the write);
  \<^item> \<open>StopAssign\<close>, \<open>StopTest\<close>: the loop assigns the result of that write to \<open>err\<close>;
    the loop tests \<open>err\<close> and panics or returns;
  \<^item> \<open>PulseBegin i ok\<close>: pulse goroutine \<open>i\<close> starts \<open>OnOff\<close> and writes \<open>"1"\<close>;
  \<^item> \<open>PulseTimer i ok\<close>: its timer fires, it writes \<open>"0"\<close> and \<open>OnOff\<close> returns;
  \<^item> \<open>PulseAssign i\<close>, \<open>PulseTest i\<close>: it assigns the result of \<open>OnOff\<close> to \<open>err\<close>; it
    tests \<open>err\<close>;
  \<^item> \<open>FrameBuild j\<close>: frame goroutine \<open>j\<close> builds its frame and enters its \<open>select\<close>;
  \<^item> \<open>FrameToHub k\<close>: the hub receives the frame of goroutine \<open>k\<close>;
  \<^item> \<open>FrameSwap j k\<close>: goroutine \<open>j\<close> receives the frame of goroutine \<open>k\<close>.
  A step that is not enabled in a state gives \<open>None\<close>. After a panic the process is
  gone and no step is enabled.
\<close>

datatype stop_sender = External | FromPulse nat

datatype 'f action =
    GoRun
  | Tick read_outcome Time
  | TickAssign
  | ErrTest Time
  | SetTargetCmd 'f
  | StopArrive
  | RecvStop stop_sender
  | LoopStopSent Time
  | Cancel nat bool
  | StopAssign
  | StopTest
  | PulseBegin nat bool
  | PulseTimer nat bool
  | PulseAssign nat
  | PulseTest nat
  | FrameBuild nat
  | FrameToHub nat
  | FrameSwap nat nat

text \<open>
  \<open>time.Tick\<close> returns a nil channel when the period is not positive, and a receive from
  a nil channel never completes.
\<close>

definition clock_ticks :: "('f, 'p) sys \<Rightarrow> bool" where
  "clock_ticks s = (0 <s window (coil s))"

definition recv_stop :: "('f, 'p) lib \<Rightarrow> stop_sender \<Rightarrow> ('f, 'p) sys \<Rightarrow> ('f, 'p) sys option" where
  "recv_stop L src s =
     (if \<not> Stop_receiver_waiting s then None
      else case src of
             External \<Rightarrow>
               (if 0 < stop_senders s
                then Some (on_stop L (s\<lparr>stop_senders := stop_senders s - 1\<rparr>))
                else None)
           | FromPulse i \<Rightarrow>
               (if i < length (pulses s) \<and> pulses s ! i = PSendStop
                then Some (on_stop L (s\<lparr>pulses := (pulses s)[i := PDone]\<rparr>))
                else None))"

fun step :: "('f, 'p) lib \<Rightarrow> 'f action \<Rightarrow> ('f, 'p) sys \<Rightarrow> ('f, 'p) sys option" where
  "step L a s =
     (if loc s = Panicked then None
      else case a of
        GoRun \<Rightarrow>
          (if loc s = Idle
           then Some (s\<lparr>coil := (coil s)\<lparr>Running := True\<rparr>, wg := wg s + 1, loc := AtSelect\<rparr>)
           else None)
      | Tick r now \<Rightarrow>
          (if loc s = AtSelect \<and> clock_ticks s then Some (tick_sample L r now s) else None)
      | TickAssign \<Rightarrow> tick_assign s
      | ErrTest now \<Rightarrow> tick_test L now s
      | SetTargetCmd target \<Rightarrow>
          (if loc s = AtSelect
           then Some (s\<lparr>coil := (coil s)\<lparr>pid := pid_Set L target (pid (coil s))\<rparr>\<rparr>)
           else None)
      | StopArrive \<Rightarrow> Some (s\<lparr>stop_senders := stop_senders s + 1\<rparr>)
      | RecvStop src \<Rightarrow> recv_stop L src s
      | LoopStopSent now \<Rightarrow> loop_stop_sent L now s
      | Cancel i ok \<Rightarrow> on_cancel i ok s
      | StopAssign \<Rightarrow> stop_assign s
      | StopTest \<Rightarrow> stop_test s
      | PulseBegin i ok \<Rightarrow> pulse_begin i ok s
      | PulseTimer i ok \<Rightarrow> pulse_timer i ok s
      | PulseAssign i \<Rightarrow> pulse_assign i s
      | PulseTest i \<Rightarrow> pulse_test L i s
      | FrameBuild j \<Rightarrow> frame_build L j s
      | FrameToHub k \<Rightarrow> frame_to_hub k s
      | FrameSwap j k \<Rightarrow> frame_swap j k s)"

fun run :: "('f, 'p) lib \<Rightarrow> 'f action list \<Rightarrow> ('f, 'p) sys \<Rightarrow> ('f, 'p) sys option" where
  "run L [] s = Some s"
| "run L (a # as) s = (case step L a s of None \<Rightarrow> None | Some s' \<Rightarrow> run L as s')"

section \<open>The broadcast hub\<close>

text \<open>
  A client's \<open>send\<close> channel is made in \<open>ServeHTTP\<close> with capacity 256. The model keeps
  its buffered messages and whether it has been closed. A send in a \<open>select\<close> with a
  \<open>default\<close> branch puts the message into the buffer if there is room, takes the default
  branch if there is none, and panics on a closed channel; closing a closed channel
  panics.
\<close>

record chan =
  buf :: "string list"
  is_closed :: bool

definition send_cap :: nat where
  "send_cap = 256"

definition new_chan :: chan where
  "new_chan = \<lparr>buf = [], is_closed = False\<rparr>"

datatype send_result = Sent chan | WouldBlock | SendOnClosed

definition try_send :: "string \<Rightarrow> chan \<Rightarrow> send_result" where
  "try_send p ch =
     (if is_closed ch then SendOnClosed
      else if length (buf ch) < send_cap then Sent (ch\<lparr>buf := buf ch @ [p]\<rparr>)
      else WouldBlock)"

datatype hub_loc = HIdle | HSelect | HReturned | HPanicked

text \<open>
  Clients are numbered in the order \<open>ServeHTTP\<close> creates them; \<open>clients\<close> is the map
  \<open>h.clients\<close>, \<open>sendq c\<close> the \<open>send\<close> channel of client \<open>c\<close>, \<open>hub_stop_senders\<close> the
  number of goroutines blocked in \<open>wsHub.Stop <- struct{}{}\<close>.
\<close>

record Hub =
  clients :: "nat \<rightharpoonup> bool"
  sendq :: "nat \<Rightarrow> chan"
  nclients :: nat
  running :: bool
  hloc :: hub_loc
  hub_stop_senders :: nat
  hub_wg :: int

definition NewHub :: Hub where
  "NewHub =
     \<lparr>clients = Map.empty, sendq = (\<lambda>c. new_chan), nclients = 0, running = False,
      hloc = HIdle, hub_stop_senders = 0, hub_wg = 0\<rparr>"

definition close_send :: "nat \<Rightarrow> Hub \<Rightarrow> Hub" where
  "close_send c h =
     (if is_closed (sendq h c) then h\<lparr>hloc := HPanicked\<rparr>
      else h\<lparr>sendq := (sendq h)(c := (sendq h c)\<lparr>is_closed := True\<rparr>)\<rparr>)"

text \<open>The body of the loop over \<open>h.clients\<close> in the frame branch.\<close>

definition offer_frame :: "string \<Rightarrow> nat \<Rightarrow> Hub \<Rightarrow> Hub" where
  "offer_frame payload c h =
     (case try_send payload (sendq h c) of
        Sent ch \<Rightarrow> h\<lparr>sendq := (sendq h)(c := ch)\<rparr>
      | WouldBlock \<Rightarrow>
          (let h1 = close_send c h
           in if hloc h1 = HPanicked then h1 else h1\<lparr>clients := (clients h1)(c := None)\<rparr>)
      | SendOnClosed \<Rightarrow> h\<lparr>hloc := HPanicked\<rparr>)"

fun broadcast :: "string \<Rightarrow> nat list \<Rightarrow> Hub \<Rightarrow> Hub" where
  "broadcast payload [] h = h"
| "broadcast payload (c # cs) h =
     (if hloc h = HPanicked then h else broadcast payload cs (offer_frame payload c h))"

text \<open>The body of the loop over \<open>h.clients\<close> in the stop branch.\<close>

definition notify_killed :: "nat \<Rightarrow> Hub \<Rightarrow> Hub" where
  "notify_killed c h =
     (case try_send ''server process killed'' (sendq h c) of
        Sent ch \<Rightarrow> close_send c (h\<lparr>sendq := (sendq h)(c := ch)\<rparr>)
      | WouldBlock \<Rightarrow> close_send c h
      | SendOnClosed \<Rightarrow> h\<lparr>hloc := HPanicked\<rparr>)"

fun stop_all :: "nat list \<Rightarrow> Hub \<Rightarrow> Hub" where
  "stop_all [] h = h"
| "stop_all (c # cs) h =
     (if hloc h = HPanicked then h else stop_all cs (notify_killed c h))"

text \<open>
  Go visits the keys of a map in an unspecified order, each key once; \<open>order\<close> is the
  order of one \<open>range h.clients\<close>. Each branch of the hub's \<open>select\<close> is one step: the
  writers of the clients take messages before or after it, not in between.
\<close>

definition range_order :: "nat list \<Rightarrow> Hub \<Rightarrow> bool" where
  "range_order order h = (distinct order \<and> set order = dom (clients h))"

text \<open>
  \<open>HRegister\<close>: \<open>ServeHTTP\<close> makes a client and the hub receives it from \<open>register\<close>.
  \<open>HUnregister c\<close>: the hub receives client \<open>c\<close> from \<open>unregister\<close>.
  \<open>HFrame m order\<close>: the hub receives a frame, \<open>m\<close> is the result of \<open>json.Marshal\<close>.
  \<open>HStop order\<close>: the hub receives from \<open>Stop\<close>.
  \<open>HDrain c\<close>: the writer of client \<open>c\<close> takes one message out of its channel.
\<close>

datatype hub_action =
    HGoRun
  | HRegister
  | HUnregister nat
  | HFrame "error + string" "nat list"
  | HStopArrive
  | HStop "nat list"
  | HDrain nat

definition hub_unregister :: "nat \<Rightarrow> Hub \<Rightarrow> Hub" where
  "hub_unregister c h =
     (case clients h c of
        Some ok \<Rightarrow> close_send c (h\<lparr>clients := (clients h)(c := None)\<rparr>)
      | None \<Rightarrow> h)"

definition hub_frame :: "error + string \<Rightarrow> nat list \<Rightarrow> Hub \<Rightarrow> Hub" where
  "hub_frame m order h =
     (case m of
        Inl e \<Rightarrow> h\<lparr>hloc := HPanicked\<rparr>
      | Inr payload \<Rightarrow> broadcast payload order h)"

definition hub_stop :: "nat list \<Rightarrow> Hub \<Rightarrow> Hub" where
  "hub_stop order h =
     (let h1 = stop_all order (h\<lparr>hub_stop_senders := hub_stop_senders h - 1\<rparr>)
      in if hloc h1 = HPanicked then h1
         else h1\<lparr>running := False, hloc := HReturned, hub_wg := hub_wg h1 - 1\<rparr>)"

fun hub_step :: "hub_action \<Rightarrow> Hub \<Rightarrow> Hub option" where
  "hub_step a h =
     (if hloc h = HPanicked then None
      else case a of
        HGoRun \<Rightarrow>
          (if hloc h = HIdle
           then Some (h\<lparr>hub_wg := hub_wg h + 1, running := True, hloc := HSelect\<rparr>)
           else None)
      | HRegister \<Rightarrow>
          (if hloc h = HSelect
           then Some (h\<lparr>clients := (clients h)(nclients h \<mapsto> True),
                         sendq := (sendq h)(nclients h := new_chan),
                         nclients := nclients h + 1\<rparr>)
           else None)
      | HUnregister c \<Rightarrow>
          (if hloc h = HSelect \<and> c < nclients h then Some (hub_unregister c h) else None)
      | HFrame m order \<Rightarrow>
          (if hloc h = HSelect \<and> range_order order h then Some (hub_frame m order h) else None)
      | HStopArrive \<Rightarrow> Some (h\<lparr>hub_stop_senders := hub_stop_senders h + 1\<rparr>)
      | HStop order \<Rightarrow>
          (if hloc h = HSelect \<and> 0 < hub_stop_senders h \<and> range_order order h
           then Some (hub_stop order h) else None)
      | HDrain c \<Rightarrow>
          (if c < nclients h \<and> buf (sendq h c) \<noteq> []
           then Some (h\<lparr>sendq := (sendq h)(c := (sendq h c)\<lparr>buf := tl (buf (sendq h c))\<rparr>)\<rparr>)
           else None))"

fun hub_run :: "hub_action list \<Rightarrow> Hub \<Rightarrow> Hub option" where
  "hub_run [] h = Some h"
| "hub_run (a # as) h = (case hub_step a h of None \<Rightarrow> None | Some h' \<Rightarrow> hub_run as h')"

section \<open>An instance of the library\<close>

text \<open>
  For evaluating the model on concrete inputs: numbers are rationals with exact
  arithmetic, text is ASCII, a number is a non-empty string of decimal digits, and the
  controller is proportional only (gain \<open>kp\<close>) and clamps its output to its limits.
\<close>

fun digits_value :: "string \<Rightarrow> nat \<Rightarrow> nat option" where
  "digits_value [] acc = Some acc"
| "digits_value (c # cs) acc =
     (if 48 \<le> (of_char c :: nat) \<and> (of_char c :: nat) \<le> 57
      then digits_value cs (10 * acc + ((of_char c :: nat) - 48)) else None)"

definition parse_digits :: "string \<Rightarrow> nat option" where
  "parse_digits s = (if s = [] then None else digits_value s 0)"

record pidc =
  setpoint :: rat
  outMin :: rat
  outMax :: rat
  kp :: rat

definition clamp :: "rat \<Rightarrow> rat \<Rightarrow> rat \<Rightarrow> rat" where
  "clamp lo hi x = (if x > hi then hi else if x < lo then lo else x)"

definition trunc_rat :: "rat \<Rightarrow> int" where
  "trunc_rat x = (if 0 \<le> x then \<lfloor>x\<rfloor> else - \<lfloor>- x\<rfloor>)"

definition exact_lib :: "(rat, pidc) lib" where
  "exact_lib =
     \<lparr>IsNumber = (\<lambda>c. 48 \<le> c \<and> c \<le> 57),
      TrimRightFunc = (\<lambda>s f. rev (dropWhile (\<lambda>ch. f (of_char ch)) (rev s))),
      ParseFloat = (\<lambda>s. case parse_digits s of None \<Rightarrow> Inl NumError | Some n \<Rightarrow> Inr (of_nat n)),
      ParseInt = (\<lambda>s. case parse_digits s of
                        None \<Rightarrow> Inl NumError
                      | Some n \<Rightarrow> if n < 2 ^ 63 then Inr (of_nat n) else Inl NumError),
      fconst = (\<lambda>q. q),
      fadd = (\<lambda>a b. a + b),
      fsub = (\<lambda>a b. a - b),
      fmul = (\<lambda>a b. a * b),
      fabs = (\<lambda>a. \<bar>a\<bar>),
      fge = (\<lambda>a b. b \<le> a),
      float64_of_int64 = (\<lambda>w. of_int (sint w)),
      Duration_of_float64 = (\<lambda>x. word_of_int (trunc_rat x)),
      NewPIDController = (\<lambda>p i d. \<lparr>setpoint = 0, outMin = 0, outMax = 0, kp = p\<rparr>),
      SetOutputLimits = (\<lambda>lo hi c. c\<lparr>outMin := lo, outMax := hi\<rparr>),
      pid_Set = (\<lambda>v c. c\<lparr>setpoint := v\<rparr>),
      pid_Get = setpoint,
      pid_Update = (\<lambda>now v c. (clamp (outMin c) (outMax c) (kp c * (setpoint c - v)), c))\<rparr>"

text \<open>An environment with gain 1 and the window length \<open>m\<close> (decimal text).\<close>

definition env_of :: "string \<Rightarrow> string \<Rightarrow> string" where
  "env_of m name =
     (if name = ''PI_HEATER_PID_P'' then ''1''
      else if name = ''PI_HEATER_PID_I'' then ''0''
      else if name = ''PI_HEATER_PID_D'' then ''0''
      else if name = ''PI_HEATER_PID_MAX'' then m
      else [])"

definition start_of :: "string \<Rightarrow> (rat, pidc) sys option" where
  "start_of m =
     (case NewCoil exact_lib (env_of m) True True of
        Inl e \<Rightarrow> None
      | Inr c \<Rightarrow> Some (sys_of c))"

definition reads :: "string \<Rightarrow> read_outcome" where
  "reads txt = \<lparr>rd_bytes = txt, rd_err = None\<rparr>"

definition read_fails :: read_outcome where
  "read_fails = \<lparr>rd_bytes = [], rd_err = Some ReadError\<rparr>"

text \<open>
  The coil that \<open>NewCoil\<close> builds for a window of 1000 ms, and the system once \<open>Run\<close>
  has started and the target has been set to 100.
\<close>

definition coil_1000 :: "(rat, pidc) Coil" where
  "coil_1000 =
     \<lparr>tempb = zero_bytes6, statb = zero_bytes3, window = 1000000000,
      pid = \<lparr>setpoint = 0, outMin = 0, outMax = 985, kp = 1\<rparr>,
      nonInitialRun = False, Running = False, Temp = 0, LastUpdated = 0, Firing = False,
      FireTime = 0, CurrentFrame = zero_frame exact_lib\<rparr>"

definition heating_1000 :: "(rat, pidc) sys" where
  "heating_1000 =
     (sys_of (coil_1000\<lparr>Running := True, pid := (pid coil_1000)\<lparr>setpoint := 100\<rparr>\<rparr>))
       \<lparr>wg := 1, loc := AtSelect\<rparr>"

text \<open>
  States of that system used as concrete inputs, each reached by the run given with it
  in the statements below: after a first tick that reads \<open>100\<close> at time 5
  (\<open>sampled_1000\<close>), with the pulse of that tick waiting for its timer
  (\<open>pulsing_1000\<close>), after a first tick whose read fails (\<open>read_failed_1000\<close>), after a
  second tick that reads \<open>999\<close> (\<open>jumped_1000\<close>), and after a second tick that reads
  \<open>120\<close> while the first pulse is still waiting (\<open>second_tick_1000\<close>), then with both
  pulses waiting (\<open>both_pulsing_1000\<close>). \<open>frame_5\<close> and \<open>frame_9\<close> are the frames of
  ticks at times 5 and 9 that read \<open>100\<close> and \<open>120\<close>. \<open>run_from m as\<close> runs the actions
  \<open>as\<close> from the state \<open>NewCoil\<close> gives for the window length \<open>m\<close>.
\<close>

definition sampled_1000 :: "(rat, pidc) sys" where
  "sampled_1000 =
     heating_1000\<lparr>coil := (coil heating_1000)
                      \<lparr>tempb := ''100'' @ [CHR 0x00, CHR 0x00, CHR 0x00],
                       nonInitialRun := True, Temp := 77, LastUpdated := 5,
                       FireTime := 23000000\<rparr>,
                  pulses := [PSpawned], framers := [FSpawned 5], updates := 1\<rparr>"

definition pulsing_1000 :: "(rat, pidc) sys" where
  "pulsing_1000 =
     sampled_1000\<lparr>coil := (coil sampled_1000)\<lparr>Firing := True\<rparr>,
                  pulses := [PWaiting 23000000], statf_written := ''1''\<rparr>"

definition read_failed_1000 :: "(rat, pidc) sys" where
  "read_failed_1000 =
     heating_1000\<lparr>coil := (coil heating_1000)
                      \<lparr>pid := (pid (coil heating_1000))\<lparr>setpoint := 0\<rparr>\<rparr>,
                  err := Some ReadError, loc := SendStopRead 0\<rparr>"

definition jumped_1000 :: "(rat, pidc) sys" where
  "jumped_1000 =
     sampled_1000\<lparr>coil := (coil sampled_1000)
                      \<lparr>tempb := ''999'' @ [CHR 0x00, CHR 0x00, CHR 0x00],
                       Temp := 9631 / 20, LastUpdated := 9,
                       pid := (pid (coil sampled_1000))\<lparr>setpoint := 0\<rparr>\<rparr>,
                  loc := SendStopJump\<rparr>"

definition second_tick_1000 :: "(rat, pidc) sys" where
  "second_tick_1000 =
     pulsing_1000\<lparr>coil := (coil pulsing_1000)
                      \<lparr>tempb := ''120'' @ [CHR 0x00, CHR 0x00, CHR 0x00],
                       Temp := 86, LastUpdated := 9, FireTime := 14000000\<rparr>,
                  pulses := [PWaiting 23000000, PSpawned],
                  framers := [FSpawned 5, FSpawned 9], updates := 2\<rparr>"

definition both_pulsing_1000 :: "(rat, pidc) sys" where
  "both_pulsing_1000 =
     second_tick_1000\<lparr>pulses := [PWaiting 23000000, PWaiting 14000000],
                      statf_written := ''11''\<rparr>"

definition frame_5 :: "rat CoilFrame" where
  "frame_5 = \<lparr>Temp_frame = 77, Target = 100, FrameStart = 5, FrameDuration = 1000,
               FireTime_frame = 23\<rparr>"

definition frame_9 :: "rat CoilFrame" where
  "frame_9 = \<lparr>Temp_frame = 86, Target = 100, FrameStart = 9, FrameDuration = 1000,
               FireTime_frame = 14\<rparr>"

definition run_from :: "string \<Rightarrow> rat action list \<Rightarrow> (rat, pidc) sys option" where
  "run_from m as = (case start_of m of None \<Rightarrow> None | Some s \<Rightarrow> run exact_lib as s)"

text \<open>
  The loop returned: from \<open>pulsing_1000\<close> a stop request was received, the waiting pulse
  took the cancel, and the loop wrote \<open>"0"\<close> and returned. The hub returned: it had one
  client when it received its stop request, sent it the notice and closed its channel;
  the stop branch leaves the client in \<open>h.clients\<close>.
\<close>

definition stopped_1000 :: "(rat, pidc) sys" where
  "stopped_1000 =
     pulsing_1000\<lparr>coil := (coil pulsing_1000)
                      \<lparr>pid := (pid (coil pulsing_1000))\<lparr>setpoint := 0\<rparr>,
                       Firing := False, Running := False\<rparr>,
                  loc := Returned, pulses := [PAssign None], statf_written := ''10'',
                  statf_closes := 1, tempf_closes := 1, wg := 0\<rparr>"

definition stopped_hub :: Hub where
  "stopped_hub =
     \<lparr>clients = [0 \<mapsto> True],
      sendq = (\<lambda>c. new_chan)(0 := \<lparr>buf = [''server process killed''], is_closed = True\<rparr>),
      nclients = 1, running = False, hloc = HReturned, hub_stop_senders = 0, hub_wg = 0\<rparr>"

text \<open>
  A running hub with one client whose channel holds \<open>bs\<close>, and the hub after that client
  has been sent 256 frames it never took and a second client has registered.
\<close>

definition one_client :: "string list \<Rightarrow> Hub" where
  "one_client bs =
     \<lparr>clients = [0 \<mapsto> True], sendq = (\<lambda>c. new_chan)(0 := \<lparr>buf = bs, is_closed = False\<rparr>),
      nclients = 1, running = True, hloc = HSelect, hub_stop_senders = 0, hub_wg = 1\<rparr>"

definition crowded_hub :: Hub where
  "crowded_hub =
     (one_client (replicate 256 ''f''))
       \<lparr>clients := [0 \<mapsto> True, 1 \<mapsto> True],
        sendq := (sendq (one_client (replicate 256 ''f'')))(1 := new_chan),
        nclients := 2\<rparr>"

section \<open>Predicates used in the statements\<close>

text \<open>
  The run loop is parked when it stands at one of its own sends on \<open>c.Stop\<close> or has
  returned. \<open>loop_rests s s'\<close> says that between \<open>s\<close> and \<open>s'\<close> the run loop has done
  nothing: it stands where it stood, has sampled nothing, updated nothing, started no
  goroutine, closed no file, and no sender on \<open>c.Stop\<close> has been served.
\<close>

definition loop_parked :: "('f, 'p) sys \<Rightarrow> bool" where
  "loop_parked s =
     (case loc s of SendStopRead oldTemp \<Rightarrow> True | SendStopJump \<Rightarrow> True | Returned \<Rightarrow> True
      | _ \<Rightarrow> False)"

definition loop_rests :: "('f, 'p) sys \<Rightarrow> ('f, 'p) sys \<Rightarrow> bool" where
  "loop_rests s s' =
     (loc s' = loc s \<and> Running (coil s') = Running (coil s) \<and>
      nonInitialRun (coil s') = nonInitialRun (coil s) \<and>
      Temp (coil s') = Temp (coil s) \<and> FireTime (coil s') = FireTime (coil s) \<and>
      updates s' = updates s \<and>
      length (pulses s') = length (pulses s) \<and> length (framers s') = length (framers s) \<and>
      statf_closes s' = statf_closes s \<and> tempf_closes s' = tempf_closes s \<and> wg s' = wg s \<and>
      stop_senders s \<le> stop_senders s')"

text \<open>
  A pulse goroutine can take a cancel only in the \<open>select\<close> of \<open>OnOff\<close>, where it is or
  where it will be if it has not started yet. \<open>stop_hangs s s'\<close>: between \<open>s\<close> and \<open>s'\<close>
  the stop branch has stayed at its send on \<open>cancelOnOff\<close>.
\<close>

fun may_take_cancel :: "pulse \<Rightarrow> bool" where
  "may_take_cancel PSpawned = True"
| "may_take_cancel (PWaiting d) = True"
| "may_take_cancel _ = False"

definition no_pulse_to_cancel :: "('f, 'p) sys \<Rightarrow> bool" where
  "no_pulse_to_cancel s = (\<forall>p\<in>set (pulses s). \<not> may_take_cancel p)"

definition stop_hangs :: "('f, 'p) sys \<Rightarrow> ('f, 'p) sys \<Rightarrow> bool" where
  "stop_hangs s s' =
     (loc s' = SendCancel \<and> length (pulses s') = length (pulses s) \<and>
      Running (coil s') = Running (coil s) \<and>
      statf_written s' = statf_written s \<and> statf_closes s' = statf_closes s \<and>
      tempf_closes s' = tempf_closes s \<and> wg s' = wg s)"

text \<open>
  The bound on a frame, for the window length \<open>max64\<close> (milliseconds) read from the
  environment.

  What is assumed of \<open>pidctrl\<close>, which is not part of the repository: the controller has
  output limits (\<open>lims\<close> reads them off its state), \<open>SetOutputLimits\<close> sets them, \<open>Set\<close>
  and \<open>Update\<close> keep them, and when the lower limit is not above the upper one the
  output of \<open>Update\<close> lies within them. What is assumed of \<open>float64\<close>: an \<open>int64\<close>
  between 0 and \<open>2^53\<close> converts to a \<open>float64\<close> that is at least 0, and a \<open>float64\<close>
  between 0 and that one converts to a \<open>time.Duration\<close> between 0 and the \<open>int64\<close>.
\<close>

definition frame_in_window :: "int64 \<Rightarrow> 'f CoilFrame \<Rightarrow> bool" where
  "frame_in_window max64 f =
     (FrameDuration f = max64 \<and> 0 \<le> sint (FireTime_frame f) \<and>
      sint (FireTime_frame f) \<le> sint (FrameDuration f) - 15)"

definition pid_contract :: "('f, 'p) lib \<Rightarrow> ('p \<Rightarrow> 'f \<times> 'f) \<Rightarrow> bool" where
  "pid_contract L lims =
     ((\<forall>lo hi q. lims (SetOutputLimits L lo hi q) = (lo, hi)) \<and>
      (\<forall>v q. lims (pid_Set L v q) = lims q) \<and>
      (\<forall>now t q. lims (snd (pid_Update L now t q)) = lims q) \<and>
      (\<forall>now t q. fge L (snd (lims q)) (fst (lims q)) \<longrightarrow>
         fge L (fst (pid_Update L now t q)) (fst (lims q)) \<and>
         fge L (snd (lims q)) (fst (pid_Update L now t q))))"

definition float64_contract :: "('f, 'p) lib \<Rightarrow> bool" where
  "float64_contract L =
     (\<forall>n. 0 \<le> sint n \<and> sint n \<le> 2 ^ 53 \<longrightarrow>
        fge L (float64_of_int64 L n) (fconst L 0) \<and>
        (\<forall>x. fge L x (fconst L 0) \<and> fge L (float64_of_int64 L n) x \<longrightarrow>
           0 \<le> sint (Duration_of_float64 L x) \<and> sint (Duration_of_float64 L x) \<le> sint n))"

text \<open>
  \<open>coil_inv\<close> is the invariant of the system that gives the bound: the window and the
  limits are those \<open>NewCoil\<close> has set. \<open>never_ticked\<close> is the invariant of a system whose
  clock does not tick: the timer branch is never entered and there is no frame.
\<close>

definition coil_inv :: "('f, 'p) lib \<Rightarrow> ('p \<Rightarrow> 'f \<times> 'f) \<Rightarrow> int64 \<Rightarrow> ('f, 'p) sys \<Rightarrow> bool" where
  "coil_inv L lims max64 s =
     (window (coil s) = max64 * Millisecond \<and>
      lims (pid (coil s)) = (fconst L 0, float64_of_int64 L (max64 - 15)) \<and>
      0 \<le> sint (Milliseconds (FireTime (coil s))) \<and>
      sint (Milliseconds (FireTime (coil s))) \<le> sint max64 - 15 \<and>
      (\<forall>f\<in>set (published s). frame_in_window max64 f) \<and>
      (\<forall>fr\<in>set (framers s). \<forall>f. offered fr = Some f \<longrightarrow> f \<in> set (published s)) \<and>
      set (hub_recv s) \<subseteq> set (published s))"

fun in_timer_branch :: "'f loop_loc \<Rightarrow> bool" where
  "in_timer_branch (AssignErr oldTemp e) = True"
| "in_timer_branch (TestErr oldTemp) = True"
| "in_timer_branch (SendStopRead oldTemp) = True"
| "in_timer_branch SendStopJump = True"
| "in_timer_branch _ = False"

definition never_ticked :: "('f, 'p) sys \<Rightarrow> bool" where
  "never_ticked s =
     (\<not> clock_ticks s \<and> \<not> in_timer_branch (loc s) \<and>
      framers s = [] \<and> published s = [] \<and> hub_recv s = [])"

text \<open>
  What the frame branch and the stop branch of the hub leave in a client's channel, and
  the invariant of the hub: while the hub runs, the channel of a registered client is
  open; no channel ever holds more than \<open>send_cap\<close> messages.
\<close>

definition offered_to :: "string \<Rightarrow> chan \<Rightarrow> chan" where
  "offered_to p ch =
     (if length (buf ch) < send_cap then ch\<lparr>buf := buf ch @ [p]\<rparr> else ch\<lparr>is_closed := True\<rparr>)"

definition notified :: "chan \<Rightarrow> chan" where
  "notified ch =
     (if length (buf ch) < send_cap
      then ch\<lparr>buf := buf ch @ [''server process killed''], is_closed := True\<rparr>
      else ch\<lparr>is_closed := True\<rparr>)"

definition hub_inv :: "Hub \<Rightarrow> bool" where
  "hub_inv h =
     ((hloc h = HIdle \<or> hloc h = HSelect \<longrightarrow>
         (\<forall>c. clients h c \<noteq> None \<longrightarrow> \<not> is_closed (sendq h c))) \<and>
      (\<forall>c. clients h c \<noteq> None \<longrightarrow> c < nclients h) \<and>
      (\<forall>c. length (buf (sendq h c)) \<le> send_cap))"

definition hub_rests :: "Hub \<Rightarrow> Hub \<Rightarrow> bool" where
  "hub_rests h h' =
     (hloc h' = hloc h \<and> clients h' = clients h \<and> running h' = running h \<and>
      hub_wg h' = hub_wg h \<and> nclients h' = nclients h \<and>
      (\<forall>c. is_closed (sendq h' c) = is_closed (sendq h c)) \<and>
      hub_stop_senders h \<le> hub_stop_senders h')"

section \<open>Properties of the sensor sample\<close>

lemma updateTemp_error_cases:
  "fst (updateTemp L r now c) \<noteq> None \<longleftrightarrow>
     rd_err r \<noteq> None \<or>
     (\<exists>e. ParseFloat L (TrimRightFunc L (file_Read r (tempb c)) (trimTest L)) = Inl e)"
  by (auto simp: updateTemp_def Let_def split: option.splits sum.splits)

lemma updateTemp_keeps:
  assumes "updateTemp L r now c = (e, c')"
  shows "window c' = window c \<and> pid c' = pid c \<and> FireTime c' = FireTime c \<and>
         nonInitialRun c' = nonInitialRun c \<and> Running c' = Running c"
  using assms by (auto simp: updateTemp_def Let_def split: option.splits sum.splits)

text \<open>
  What a sample that succeeds stores: the calibration of the number parsed from the
  whole buffer after the read, which is the text of this read only if the read filled
  the buffer or the rest of the buffer trims away.
\<close>

lemma updateTemp_success:
  "updateTemp L r now c = (None, c') \<longleftrightarrow>
     rd_err r = None \<and>
     (\<exists>t. ParseFloat L (TrimRightFunc L (file_Read r (tempb c)) (trimTest L)) = Inr t \<and>
          c' = c\<lparr>tempb := file_Read r (tempb c),
                  Temp := fadd L (fmul L (fconst L (9 / 20)) t) (fconst L 32),
                  LastUpdated := now\<rparr>)"
  by (auto simp: updateTemp_def Let_def split: option.splits sum.splits)

text \<open>
  Claim C10. A sample that fails, because the read returns an error or because the
  trimmed text does not parse, leaves \<open>Temp\<close> and \<open>LastUpdated\<close> as they were; only the
  read buffer may have changed.
\<close>

theorem updateTemp_failure_keeps_measurement:
  assumes "updateTemp L r now c = (Some e, c')"
  shows "Temp c' = Temp c \<and> LastUpdated c' = LastUpdated c \<and>
         c' = c\<lparr>tempb := file_Read r (tempb c)\<rparr>"
  using assms
  by (auto simp: updateTemp_def Let_def split: option.splits sum.splits)

theorem updateTemp_failure_keeps_measurement_witness:
  "updateTemp exact_lib (reads ''12x4'') 7 coil_1000 =
     (Some NumError, coil_1000\<lparr>tempb := ''12x4'' @ [CHR 0x00, CHR 0x00]\<rparr>) \<and>
   Temp (coil_1000\<lparr>tempb := ''12x4'' @ [CHR 0x00, CHR 0x00]\<rparr>) = Temp coil_1000 \<and>
   LastUpdated (coil_1000\<lparr>tempb := ''12x4'' @ [CHR 0x00, CHR 0x00]\<rparr>) = LastUpdated coil_1000"
proof -
  have u: "updateTemp exact_lib (reads ''12x4'') 7 coil_1000 =
             (Some NumError, coil_1000\<lparr>tempb := ''12x4'' @ [CHR 0x00, CHR 0x00]\<rparr>)"
    by (simp add: updateTemp_def exact_lib_def reads_def file_Read_def coil_1000_def
                  zero_bytes6_def trimTest_def parse_digits_def Let_def)
  from updateTemp_failure_keeps_measurement[OF u] u show ?thesis by simp
qed

section \<open>Evaluating the model\<close>

lemmas lib_eval = exact_lib_def parse_digits_def clamp_def trunc_rat_def env_of_def

lemmas coil_eval = start_of_def NewCoil_def sys_of_def Millisecond_def Milliseconds_def
  zero_frame_def zero_bytes6_def zero_bytes3_def updateTemp_def file_Read_def trimTest_def
  tick_sample_def tick_assign_def tick_test_def tick_check_def tick_rest_def temp_jumped_def
  MaxTempDiff_def pid_Set0_def clock_ticks_def Stop_receiver_waiting_def loop_stop_sent_def
  on_stop_def run_deferred_def on_cancel_def stop_assign_def stop_test_def pulse_begin_def
  pulse_timer_def pulse_assign_def pulse_test_def frame_build_def frame_sent_def
  frame_to_hub_def frame_swap_def recv_stop_def statf_Write_def Let_def word_sless_alt

lemma NewCoil_1000: "NewCoil exact_lib (env_of ''1000'') True True = Inr coil_1000"
  by (simp add: lib_eval coil_eval coil_1000_def)

lemma start_1000: "start_of ''1000'' = Some (sys_of coil_1000)"
  by (simp add: start_of_def NewCoil_1000)

lemma heating_1000_reached:
  "run exact_lib [GoRun, SetTargetCmd 100] (sys_of coil_1000) = Some heating_1000"
  by (simp add: lib_eval coil_eval coil_1000_def heating_1000_def)

lemma sampled_1000_reached:
  "run exact_lib [Tick (reads ''100'') 5, TickAssign, ErrTest 5] heating_1000
     = Some sampled_1000"
  by (simp add: sampled_1000_def reads_def lib_eval coil_eval coil_1000_def heating_1000_def)

lemma pulsing_1000_reached:
  "step exact_lib (PulseBegin 0 True) sampled_1000 = Some pulsing_1000"
  by (simp add: pulsing_1000_def sampled_1000_def lib_eval coil_eval coil_1000_def
                heating_1000_def)

text \<open>
  Claim C9. \<open>updateTemp\<close> drops the number of bytes the read returned and parses the
  whole six-byte buffer. After a read of \<open>"100"\<close> a read of \<open>"99"\<close> leaves \<open>"990"\<close> and
  zero bytes in the buffer, and the sample stores \<open>0.45 * 990 + 32\<close>, where the text of
  the read, trimmed and parsed, is 99 and the claim's value is \<open>0.45 * 99 + 32\<close>. With a
  line feed after the digits, a read of \<open>"99\n"\<close> after \<open>"1000\n"\<close> leaves \<open>"99\n0\n"\<close>;
  the trimmed text \<open>"99\n0"\<close> does not parse and the sample fails, although the read
  succeeded and its own text trims to a number. Into a fresh buffer the same reads give
  the claim's value.
\<close>

theorem short_read_keeps_old_bytes:
  "updateTemp exact_lib (reads ''100'') 5 coil_1000
     = (None, coil_1000\<lparr>tempb := ''100'' @ [CHR 0x00, CHR 0x00, CHR 0x00], Temp := 77,
                        LastUpdated := 5\<rparr>) \<and>
   updateTemp exact_lib (reads ''99'') 9
       (coil_1000\<lparr>tempb := ''100'' @ [CHR 0x00, CHR 0x00, CHR 0x00], Temp := 77,
                  LastUpdated := 5\<rparr>)
     = (None, coil_1000\<lparr>tempb := ''990'' @ [CHR 0x00, CHR 0x00, CHR 0x00], Temp := 955 / 2,
                        LastUpdated := 9\<rparr>) \<and>
   ParseFloat exact_lib (TrimRightFunc exact_lib ''99'' (trimTest exact_lib)) = Inr 99 \<and>
   fadd exact_lib (fmul exact_lib (fconst exact_lib (9 / 20)) 99) (fconst exact_lib 32)
     = 1531 / 20 \<and>
   updateTemp exact_lib (reads ''99'') 9 coil_1000
     = (None, coil_1000\<lparr>tempb := ''99'' @ [CHR 0x00, CHR 0x00, CHR 0x00, CHR 0x00],
                        Temp := 1531 / 20, LastUpdated := 9\<rparr>) \<and>
   updateTemp exact_lib (reads (''1000'' @ [CHR 0x0A])) 5 coil_1000
     = (None, coil_1000\<lparr>tempb := ''1000'' @ [CHR 0x0A, CHR 0x00], Temp := 482,
                        LastUpdated := 5\<rparr>) \<and>
   updateTemp exact_lib (reads (''99'' @ [CHR 0x0A])) 9
       (coil_1000\<lparr>tempb := ''1000'' @ [CHR 0x0A, CHR 0x00], Temp := 482, LastUpdated := 5\<rparr>)
     = (Some NumError,
        coil_1000\<lparr>tempb := ''99'' @ [CHR 0x0A, CHR ''0'', CHR 0x0A, CHR 0x00], Temp := 482,
                  LastUpdated := 5\<rparr>) \<and>
   ParseFloat exact_lib
       (TrimRightFunc exact_lib (''99'' @ [CHR 0x0A]) (trimTest exact_lib)) = Inr 99"
  by (simp add: updateTemp_def reads_def lib_eval file_Read_def coil_1000_def zero_bytes6_def
                trimTest_def Let_def)

section \<open>The fault stop\<close>

lemma parked_no_receiver: "loop_parked s \<Longrightarrow> \<not> Stop_receiver_waiting s"
  by (auto simp: loop_parked_def Stop_receiver_waiting_def split: loop_loc.splits)

lemma step_parked:
  assumes p: "loop_parked s" and st: "step L a s = Some s'"
  shows "loop_rests s s'"
proof (cases a)
  case GoRun
  with p st show ?thesis by (auto simp: loop_parked_def split: if_splits loop_loc.splits)
next
  case (Tick r now)
  with p st show ?thesis by (auto simp: loop_parked_def split: if_splits loop_loc.splits)
next
  case TickAssign
  with p st show ?thesis
    by (auto simp: loop_parked_def tick_assign_def split: if_splits loop_loc.splits)
next
  case (ErrTest now)
  with p st show ?thesis
    by (auto simp: loop_parked_def tick_test_def split: if_splits loop_loc.splits)
next
  case (SetTargetCmd v)
  with p st show ?thesis by (auto simp: loop_parked_def split: if_splits loop_loc.splits)
next
  case StopArrive
  with st show ?thesis by (auto simp: loop_rests_def split: if_splits)
next
  case (RecvStop src)
  with st parked_no_receiver[OF p] show ?thesis
    by (auto simp: recv_stop_def split: if_splits)
next
  case (LoopStopSent now)
  with st parked_no_receiver[OF p] show ?thesis
    by (auto simp: loop_stop_sent_def split: if_splits)
next
  case (Cancel i ok)
  with p st show ?thesis
    by (auto simp: on_cancel_def loop_parked_def split: if_splits loop_loc.splits)
next
  case StopAssign
  with p st show ?thesis
    by (auto simp: loop_parked_def stop_assign_def split: if_splits loop_loc.splits)
next
  case StopTest
  with p st show ?thesis
    by (auto simp: loop_parked_def stop_test_def split: if_splits loop_loc.splits)
next
  case (PulseBegin i ok)
  with st show ?thesis
    by (auto simp: pulse_begin_def statf_Write_def loop_rests_def Let_def split: if_splits)
next
  case (PulseTimer i ok)
  with st show ?thesis
    by (auto simp: pulse_timer_def statf_Write_def loop_rests_def Let_def
             split: if_splits pulse.splits)
next
  case (PulseAssign i)
  with st show ?thesis
    by (auto simp: pulse_assign_def loop_rests_def split: if_splits pulse.splits)
next
  case (PulseTest i)
  with st show ?thesis
    by (auto simp: pulse_test_def pid_Set0_def loop_rests_def split: if_splits option.splits)
next
  case (FrameBuild j)
  with st show ?thesis
    by (auto simp: frame_build_def loop_rests_def Let_def split: if_splits framer.splits)
next
  case (FrameToHub k)
  with st show ?thesis
    by (auto simp: frame_to_hub_def frame_sent_def loop_rests_def split: if_splits option.splits)
next
  case (FrameSwap j k)
  with st show ?thesis
    by (auto simp: frame_swap_def frame_sent_def loop_rests_def
             split: if_splits option.splits framer.splits)
qed

lemma loop_rests_refl: "loop_rests s s"
  by (simp add: loop_rests_def)

lemma loop_rests_trans: "loop_rests s s' \<Longrightarrow> loop_rests s' s'' \<Longrightarrow> loop_rests s s''"
  by (auto simp: loop_rests_def)

lemma loop_rests_parked: "loop_rests s s' \<Longrightarrow> loop_parked s \<Longrightarrow> loop_parked s'"
  by (simp add: loop_rests_def loop_parked_def)

lemma run_parked:
  "loop_parked s \<Longrightarrow> run L as s = Some s' \<Longrightarrow> loop_rests s s'"
proof (induction as arbitrary: s)
  case Nil
  then show ?case by (simp add: loop_rests_refl)
next
  case (Cons a as)
  from Cons.prems(2) obtain s1 where s1: "step L a s = Some s1" and r: "run L as s1 = Some s'"
    by (auto split: option.splits)
  have one: "loop_rests s s1" using step_parked[OF Cons.prems(1) s1] .
  have "loop_rests s1 s'" using Cons.IH[OF loop_rests_parked[OF one Cons.prems(1)] r] .
  with one show ?case by (rule loop_rests_trans)
qed

text \<open>
  A tick in which no other goroutine runs between the call of \<open>updateTemp\<close> and the
  test of \<open>err\<close> is the run \<open>[Tick r now, TickAssign, ErrTest now']\<close>.
\<close>

lemma tick_run_enabled:
  assumes "run L [Tick r now, TickAssign, ErrTest now'] s = Some s1"
  shows "loc s = AtSelect \<and> clock_ticks s"
  using assms by (auto split: if_splits)

lemma tick_read_fault:
  assumes st: "run L [Tick r now, TickAssign, ErrTest now'] s = Some s1"
      and fail: "updateTemp L r now (coil s) = (Some e, c1)"
  shows "s1 = s\<lparr>coil := c1\<lparr>pid := pid_Set L (fconst L 0) (pid c1)\<rparr>, err := Some e,
                 loc := SendStopRead (Temp (coil s))\<rparr>"
  using st fail
  by (auto simp: tick_sample_def tick_assign_def tick_test_def pid_Set0_def Let_def
           split: if_splits)

lemma tick_jump:
  assumes st: "run L [Tick r now, TickAssign, ErrTest now'] s = Some s1"
      and ok: "updateTemp L r now (coil s) = (None, c1)"
      and jump: "temp_jumped L (Temp (coil s)) c1"
  shows "s1 = s\<lparr>coil := c1\<lparr>pid := pid_Set L (fconst L 0) (pid c1)\<rparr>, err := None,
                 loc := SendStopJump\<rparr>"
  using st ok jump
  by (auto simp: tick_sample_def tick_assign_def tick_test_def tick_check_def pid_Set0_def
                 Let_def split: if_splits)

lemma tick_calm:
  assumes st: "run L [Tick r now, TickAssign, ErrTest now'] s = Some s1"
      and ok: "updateTemp L r now (coil s) = (None, c1)"
      and calm: "\<not> temp_jumped L (Temp (coil s)) c1"
  shows "s1 = tick_rest L now' (s\<lparr>coil := c1, err := None\<rparr>)"
  using st ok calm
  by (auto simp: tick_sample_def tick_assign_def tick_test_def tick_check_def tick_rest_def
                 Let_def split: if_splits prod.splits)

text \<open>
  Claim C1. The fault-stop after a failed sample and after a temperature jump is the
  statement \<open>c.Stop <- struct{}{}\<close> inside the run loop, on a channel without capacity
  whose only receiver is the \<open>select\<close> of that same loop. The loop is at the send, not
  at the \<open>select\<close>, so no receiver is waiting, then or ever after: whatever the other
  goroutines do, the loop stays at the send, \<open>Running\<close> keeps its value and the actuator
  file is not closed. The loop cannot request its own termination this way.
\<close>

theorem fault_stop_send_blocks_forever:
  assumes st: "run L [Tick r now, TickAssign, ErrTest now'] s = Some s1"
      and fault: "fst (updateTemp L r now (coil s)) \<noteq> None \<or>
                  temp_jumped L (Temp (coil s)) (snd (updateTemp L r now (coil s)))"
  shows "(loc s1 = SendStopRead (Temp (coil s)) \<or> loc s1 = SendStopJump) \<and>
         \<not> Stop_receiver_waiting s1 \<and>
         (\<forall>as s2. run L as s1 = Some s2 \<longrightarrow>
            loc s2 = loc s1 \<and> \<not> Stop_receiver_waiting s2 \<and>
            Running (coil s2) = Running (coil s) \<and> statf_closes s2 = statf_closes s)"
proof -
  obtain e c1 where u: "updateTemp L r now (coil s) = (e, c1)"
    by (cases "updateTemp L r now (coil s)")
  have l1: "loc s1 = SendStopRead (Temp (coil s)) \<or> loc s1 = SendStopJump"
  proof (cases e)
    case None
    with fault u have "temp_jumped L (Temp (coil s)) c1" by simp
    from tick_jump[OF st u[unfolded None] this] show ?thesis by simp
  next
    case (Some x)
    from tick_read_fault[OF st u[unfolded Some]] show ?thesis by simp
  qed
  then have p: "loop_parked s1" by (auto simp: loop_parked_def)
  have k: "Running (coil s1) = Running (coil s) \<and> statf_closes s1 = statf_closes s"
  proof (cases e)
    case None
    with fault u have "temp_jumped L (Temp (coil s)) c1" by simp
    from tick_jump[OF st u[unfolded None] this] updateTemp_keeps[OF u] show ?thesis by simp
  next
    case (Some x)
    from tick_read_fault[OF st u[unfolded Some]] updateTemp_keeps[OF u] show ?thesis by simp
  qed
  have "\<forall>as s2. run L as s1 = Some s2 \<longrightarrow>
            loc s2 = loc s1 \<and> \<not> Stop_receiver_waiting s2 \<and>
            Running (coil s2) = Running (coil s) \<and> statf_closes s2 = statf_closes s"
  proof (intro allI impI)
    fix as s2 assume r: "run L as s1 = Some s2"
    have rest: "loop_rests s1 s2" using run_parked[OF p r] .
    have "loop_parked s2" using loop_rests_parked[OF rest p] .
    then have "\<not> Stop_receiver_waiting s2" by (rule parked_no_receiver)
    with rest k show "loc s2 = loc s1 \<and> \<not> Stop_receiver_waiting s2 \<and>
            Running (coil s2) = Running (coil s) \<and> statf_closes s2 = statf_closes s"
      by (simp add: loop_rests_def)
  qed
  with l1 parked_no_receiver[OF p] show ?thesis by blast
qed

theorem fault_stop_send_blocks_forever_witness:
  "run exact_lib [Tick read_fails 5, TickAssign, ErrTest 5] heating_1000
     = Some read_failed_1000 \<and>
   fst (updateTemp exact_lib read_fails 5 (coil heating_1000)) = Some ReadError \<and>
   loc read_failed_1000 = SendStopRead 0 \<and>
   \<not> Stop_receiver_waiting read_failed_1000 \<and>
   run exact_lib [StopArrive] read_failed_1000 = Some (read_failed_1000\<lparr>stop_senders := 1\<rparr>) \<and>
   loc (read_failed_1000\<lparr>stop_senders := 1\<rparr>) = SendStopRead 0 \<and>
   step exact_lib (RecvStop External) (read_failed_1000\<lparr>stop_senders := 1\<rparr>) = None \<and>
   Running (coil (read_failed_1000\<lparr>stop_senders := 1\<rparr>))"
proof -
  note scene = coil_1000_def heating_1000_def read_failed_1000_def read_fails_def
  have st: "run exact_lib [Tick read_fails 5, TickAssign, ErrTest 5] heating_1000
              = Some read_failed_1000"
    by (simp add: scene lib_eval coil_eval)
  have f: "fst (updateTemp exact_lib read_fails 5 (coil heating_1000)) = Some ReadError"
    by (simp add: scene lib_eval coil_eval)
  have r: "run exact_lib [StopArrive] read_failed_1000 = Some (read_failed_1000\<lparr>stop_senders := 1\<rparr>)"
    by (simp add: scene lib_eval coil_eval)
  have t: "Temp (coil heating_1000) = 0" and u: "Running (coil heating_1000)"
    by (simp_all add: scene lib_eval coil_eval)
  have n: "step exact_lib (RecvStop External) (read_failed_1000\<lparr>stop_senders := 1\<rparr>) = None"
    by (simp add: scene lib_eval coil_eval)
  have l: "loc read_failed_1000 = SendStopRead 0"
    by (simp add: scene lib_eval coil_eval)
  have fault: "fst (updateTemp exact_lib read_fails 5 (coil heating_1000)) \<noteq> None \<or>
     temp_jumped exact_lib (Temp (coil heating_1000))
       (snd (updateTemp exact_lib read_fails 5 (coil heating_1000)))"
    using f by simp
  from fault_stop_send_blocks_forever[OF st fault]
  have b: "\<not> Stop_receiver_waiting read_failed_1000"
    and c: "\<forall>as s2. run exact_lib as read_failed_1000 = Some s2 \<longrightarrow>
            loc s2 = loc read_failed_1000 \<and> \<not> Stop_receiver_waiting s2 \<and>
            Running (coil s2) = Running (coil heating_1000) \<and>
            statf_closes s2 = statf_closes heating_1000"
    by blast+
  from c r have d: "loc (read_failed_1000\<lparr>stop_senders := 1\<rparr>) = loc read_failed_1000 \<and>
      Running (coil (read_failed_1000\<lparr>stop_senders := 1\<rparr>)) = Running (coil heating_1000)"
    by blast
  from d l have l2: "loc (read_failed_1000\<lparr>stop_senders := 1\<rparr>) = SendStopRead 0" by simp
  from d u have ru: "Running (coil (read_failed_1000\<lparr>stop_senders := 1\<rparr>))" by simp
  show ?thesis by (intro conjI st f l b r l2 n ru)
qed

text \<open>
  Claim C3. The loop tests the variable \<open>err\<close>, not the result of its own
  \<open>updateTemp\<close>, and a pulse goroutine of an earlier tick assigns the same variable.
  Here the read of the second tick fails; before the loop tests \<open>err\<close> the timer of the
  first pulse fires, \<open>OnOff\<close> returns \<open>nil\<close> and the pulse goroutine assigns it to
  \<open>err\<close>. The loop then finds \<open>err\<close> to be \<open>nil\<close>: it does not set the target to 0 and
  does not send on \<open>c.Stop\<close>, it goes through the temperature check, calls \<open>pid.Update\<close>
  with the old temperature and starts a pulse goroutine and a frame goroutine, which
  write \<open>"1"\<close> to the actuator and publish a frame for that tick.
\<close>

theorem failed_sample_hidden_by_pulse_result:
  "run_from ''1000'' [GoRun, SetTargetCmd 100, Tick (reads ''100'') 5, TickAssign, ErrTest 5,
                     PulseBegin 0 True] = Some pulsing_1000 \<and>
   fst (updateTemp exact_lib read_fails 9 (coil pulsing_1000)) = Some ReadError \<and>
   map_option (\<lambda>s. (loc s, err s))
     (run exact_lib [Tick read_fails 9, TickAssign] pulsing_1000)
     = Some (TestErr 77, Some ReadError) \<and>
   map_option (\<lambda>s. (loc s, err s, setpoint (pid (coil s)), updates s, pulses s, framers s))
     (run exact_lib [Tick read_fails 9, TickAssign, PulseTimer 0 True, PulseAssign 0, ErrTest 9]
        pulsing_1000)
     = Some (AtSelect, None, 100, 2, [PTest, PSpawned], [FSpawned 5, FSpawned 9]) \<and>
   map_option (\<lambda>s. (loc s, stop_senders s, statf_written s, published s))
     (run exact_lib [Tick read_fails 9, TickAssign, PulseTimer 0 True, PulseAssign 0, ErrTest 9,
                     PulseBegin 1 True, FrameBuild 1] pulsing_1000)
     = Some (AtSelect, 0, ''101'',
             [\<lparr>Temp_frame = 77, Target = 100, FrameStart = 9, FrameDuration = 1000,
               FireTime_frame = 23\<rparr>])"
  by (simp add: run_from_def pulsing_1000_def sampled_1000_def heating_1000_def coil_1000_def
                reads_def read_fails_def lib_eval coil_eval)

text \<open>
  Claim C4. When a sample that is not the first differs from the previous one by
  \<open>MaxTempDiff\<close> or more, the loop sets the target to 0 and starts the send on \<open>c.Stop\<close>.
  It never gets further: it does not reach \<open>Returned\<close>, \<open>Running\<close> keeps its value, the
  files stay open and the wait group is not released.
\<close>

theorem temperature_jump_never_stops:
  assumes st: "run L [Tick r now, TickAssign, ErrTest now'] s = Some s1"
      and ok: "updateTemp L r now (coil s) = (None, c1)"
      and jump: "temp_jumped L (Temp (coil s)) c1"
  shows "loc s1 = SendStopJump \<and>
         pid (coil s1) = pid_Set L (fconst L 0) (pid (coil s)) \<and>
         (\<forall>as s2. run L as s1 = Some s2 \<longrightarrow>
            loc s2 = SendStopJump \<and> loc s2 \<noteq> Returned \<and>
            Running (coil s2) = Running (coil s) \<and>
            statf_closes s2 = statf_closes s \<and> tempf_closes s2 = tempf_closes s \<and>
            wg s2 = wg s)"
proof -
  note s1 = tick_jump[OF st ok jump]
  note keep = updateTemp_keeps[OF ok]
  have p: "loop_parked s1" by (simp add: s1 loop_parked_def)
  have now: "loc s1 = SendStopJump \<and> pid (coil s1) = pid_Set L (fconst L 0) (pid (coil s)) \<and>
             Running (coil s1) = Running (coil s) \<and> statf_closes s1 = statf_closes s \<and>
             tempf_closes s1 = tempf_closes s \<and> wg s1 = wg s"
    using keep by (simp add: s1)
  have "\<forall>as s2. run L as s1 = Some s2 \<longrightarrow>
            loc s2 = SendStopJump \<and> loc s2 \<noteq> Returned \<and>
            Running (coil s2) = Running (coil s) \<and>
            statf_closes s2 = statf_closes s \<and> tempf_closes s2 = tempf_closes s \<and>
            wg s2 = wg s"
  proof (intro allI impI)
    fix as s2 assume r: "run L as s1 = Some s2"
    from run_parked[OF p r] now
    show "loc s2 = SendStopJump \<and> loc s2 \<noteq> Returned \<and>
            Running (coil s2) = Running (coil s) \<and>
            statf_closes s2 = statf_closes s \<and> tempf_closes s2 = tempf_closes s \<and>
            wg s2 = wg s"
      by (simp add: loop_rests_def)
  qed
  with now show ?thesis by blast
qed

theorem temperature_jump_never_stops_witness:
  "run exact_lib [Tick (reads ''999'') 9, TickAssign, ErrTest 9] sampled_1000
     = Some jumped_1000 \<and>
   fst (updateTemp exact_lib (reads ''999'') 9 (coil sampled_1000)) = None \<and>
   Temp (snd (updateTemp exact_lib (reads ''999'') 9 (coil sampled_1000))) = 9631 / 20 \<and>
   temp_jumped exact_lib (Temp (coil sampled_1000))
     (snd (updateTemp exact_lib (reads ''999'') 9 (coil sampled_1000))) \<and>
   loc jumped_1000 = SendStopJump \<and>
   map_option (\<lambda>s. (loc s, Running (coil s), statf_closes s, wg s, statf_written s))
     (run exact_lib [PulseBegin 0 True, StopArrive] jumped_1000)
     = Some (SendStopJump, True, 0, 1, ''1'')"
proof -
  note scene = coil_1000_def heating_1000_def sampled_1000_def jumped_1000_def reads_def
  let ?c1 = "snd (updateTemp exact_lib (reads ''999'') 9 (coil sampled_1000))"
  have st: "run exact_lib [Tick (reads ''999'') 9, TickAssign, ErrTest 9] sampled_1000
              = Some jumped_1000"
    by (simp add: scene lib_eval coil_eval)
  have f: "fst (updateTemp exact_lib (reads ''999'') 9 (coil sampled_1000)) = None"
    by (simp add: scene lib_eval coil_eval)
  have tv: "Temp ?c1 = 9631 / 20"
    by (simp add: scene lib_eval coil_eval)
  have j: "temp_jumped exact_lib (Temp (coil sampled_1000)) ?c1"
    by (simp add: scene lib_eval coil_eval)
  have ok: "updateTemp exact_lib (reads ''999'') 9 (coil sampled_1000) = (None, ?c1)"
    using f by (simp add: prod_eq_iff)
  have before: "Running (coil sampled_1000)" "statf_closes sampled_1000 = 0" "wg sampled_1000 = 1"
    by (simp_all add: scene lib_eval coil_eval)
  obtain s2 where r: "run exact_lib [PulseBegin 0 True, StopArrive] jumped_1000 = Some s2"
      and w: "statf_written s2 = ''1''"
    by (simp add: scene lib_eval coil_eval)
  from temperature_jump_never_stops[OF st ok j]
  have l: "loc jumped_1000 = SendStopJump"
    and c: "\<forall>as s2. run exact_lib as jumped_1000 = Some s2 \<longrightarrow>
            loc s2 = SendStopJump \<and> loc s2 \<noteq> Returned \<and>
            Running (coil s2) = Running (coil sampled_1000) \<and>
            statf_closes s2 = statf_closes sampled_1000 \<and>
            tempf_closes s2 = tempf_closes sampled_1000 \<and> wg s2 = wg sampled_1000"
    by blast+
  from c r have d: "loc s2 = SendStopJump \<and>
            Running (coil s2) = Running (coil sampled_1000) \<and>
            statf_closes s2 = statf_closes sampled_1000 \<and> wg s2 = wg sampled_1000"
    by blast
  have m: "map_option (\<lambda>s. (loc s, Running (coil s), statf_closes s, wg s, statf_written s))
     (run exact_lib [PulseBegin 0 True, StopArrive] jumped_1000)
     = Some (SendStopJump, True, 0, 1, ''1'')"
    unfolding r using d before w by simp
  show ?thesis by (intro conjI st f tv j l m)
qed

section \<open>The stop branch and the first sample\<close>

lemma no_pulse_nth:
  "no_pulse_to_cancel s \<Longrightarrow> i < length (pulses s) \<Longrightarrow>
   pulses s ! i \<noteq> PSpawned \<and> (\<forall>d. pulses s ! i \<noteq> PWaiting d)"
  unfolding no_pulse_to_cancel_def using nth_mem by fastforce

lemma no_pulse_update:
  assumes "no_pulse_to_cancel s" and "\<not> may_take_cancel p"
      and "pulses s' = (pulses s)[i := p]"
  shows "no_pulse_to_cancel s'"
  using assms set_update_subset_insert[of "pulses s" i p]
  by (auto simp: no_pulse_to_cancel_def)

lemma step_stop_hangs:
  assumes l: "loc s = SendCancel" and n: "no_pulse_to_cancel s" and st: "step L a s = Some s'"
  shows "stop_hangs s s' \<and> no_pulse_to_cancel s'"
proof (cases a)
  case GoRun
  with l st show ?thesis by (auto split: if_splits)
next
  case (Tick r now)
  with l st show ?thesis by (auto split: if_splits)
next
  case TickAssign
  with l st show ?thesis by (auto simp: tick_assign_def split: if_splits)
next
  case (ErrTest now)
  with l st show ?thesis by (auto simp: tick_test_def split: if_splits)
next
  case (SetTargetCmd v)
  with l st show ?thesis by (auto split: if_splits)
next
  case StopArrive
  with l n st show ?thesis
    by (auto simp: stop_hangs_def no_pulse_to_cancel_def split: if_splits)
next
  case (RecvStop src)
  with l st show ?thesis
    by (auto simp: recv_stop_def Stop_receiver_waiting_def split: if_splits)
next
  case (LoopStopSent now)
  with l st show ?thesis
    by (auto simp: loop_stop_sent_def Stop_receiver_waiting_def split: if_splits)
next
  case (Cancel i ok)
  with l st no_pulse_nth[OF n, of i] show ?thesis
    by (auto simp: on_cancel_def split: if_splits pulse.splits)
next
  case StopAssign
  with l st show ?thesis by (auto simp: stop_assign_def split: if_splits)
next
  case StopTest
  with l st show ?thesis by (auto simp: stop_test_def split: if_splits)
next
  case (PulseBegin i ok)
  with l st no_pulse_nth[OF n, of i] show ?thesis
    by (auto simp: pulse_begin_def split: if_splits)
next
  case (PulseTimer i ok)
  with l st no_pulse_nth[OF n, of i] show ?thesis
    by (auto simp: pulse_timer_def split: if_splits pulse.splits)
next
  case (PulseAssign i)
  with st obtain e where s': "s' = s\<lparr>err := e, pulses := (pulses s)[i := PTest]\<rparr>"
    by (auto simp: pulse_assign_def split: if_splits pulse.splits)
  have "no_pulse_to_cancel s'" using n by (rule no_pulse_update[where p = PTest]) (simp_all add: s')
  then show ?thesis using l by (simp add: s' stop_hangs_def)
next
  case (PulseTest i)
  with st have s': "s' = (pid_Set0 L s)\<lparr>pulses := (pulses s)[i := PSendStop]\<rparr> \<or>
                    s' = s\<lparr>pulses := (pulses s)[i := PDone]\<rparr>"
    by (auto simp: pulse_test_def split: if_splits option.splits)
  then show ?thesis
  proof
    assume e: "s' = (pid_Set0 L s)\<lparr>pulses := (pulses s)[i := PSendStop]\<rparr>"
    have "no_pulse_to_cancel s'"
      using n by (rule no_pulse_update[where p = PSendStop]) (simp_all add: e pid_Set0_def)
    then show ?thesis using l by (simp add: e stop_hangs_def pid_Set0_def)
  next
    assume e: "s' = s\<lparr>pulses := (pulses s)[i := PDone]\<rparr>"
    have "no_pulse_to_cancel s'"
      using n by (rule no_pulse_update[where p = PDone]) (simp_all add: e)
    then show ?thesis using l by (simp add: e stop_hangs_def)
  qed
next
  case (FrameBuild j)
  with l n st show ?thesis
    by (auto simp: frame_build_def stop_hangs_def no_pulse_to_cancel_def Let_def
             split: if_splits framer.splits)
next
  case (FrameToHub k)
  with l n st show ?thesis
    by (auto simp: frame_to_hub_def frame_sent_def stop_hangs_def no_pulse_to_cancel_def
             split: if_splits option.splits)
next
  case (FrameSwap j k)
  with l n st show ?thesis
    by (auto simp: frame_swap_def frame_sent_def stop_hangs_def no_pulse_to_cancel_def
             split: if_splits option.splits framer.splits)
qed

lemma run_stop_hangs:
  "loc s = SendCancel \<Longrightarrow> no_pulse_to_cancel s \<Longrightarrow> run L as s = Some s' \<Longrightarrow> stop_hangs s s'"
proof (induction as arbitrary: s)
  case Nil
  then show ?case by (simp add: stop_hangs_def)
next
  case (Cons a as)
  from Cons.prems(3) obtain s1 where s1: "step L a s = Some s1" and r: "run L as s1 = Some s'"
    by (auto split: option.splits)
  have one: "stop_hangs s s1" and n1: "no_pulse_to_cancel s1"
    using step_stop_hangs[OF Cons.prems(1,2) s1] by simp_all
  from one have "loc s1 = SendCancel" by (simp add: stop_hangs_def)
  from Cons.IH[OF this n1 r] one show ?case by (simp add: stop_hangs_def)
qed

text \<open>
  The stop branch sends on \<open>cancelOnOff\<close> before it writes \<open>"0"\<close>. If, when the loop
  receives a stop request, no pulse goroutine is waiting in \<open>OnOff\<close> and none is about
  to, nothing ever receives that send: the loop stays there, nothing is written to the
  actuator, \<open>Running\<close> keeps its value, and the files and the wait group are not released.
\<close>

theorem stop_branch_hangs_without_pulse:
  assumes st: "step L (RecvStop src) s = Some s1"
      and n: "\<forall>p\<in>set (pulses s1). \<not> may_take_cancel p"
      and r: "run L as s1 = Some s2"
  shows "loc s2 = SendCancel \<and> length (pulses s2) = length (pulses s1) \<and>
         Running (coil s2) = Running (coil s) \<and> statf_written s2 = statf_written s \<and>
         statf_closes s2 = statf_closes s \<and> tempf_closes s2 = tempf_closes s \<and>
         wg s2 = wg s"
proof -
  from st have l: "loc s1 = SendCancel" and k: "Running (coil s1) = Running (coil s)"
      "statf_written s1 = statf_written s" "statf_closes s1 = statf_closes s"
      "tempf_closes s1 = tempf_closes s" "wg s1 = wg s"
    by (auto simp: recv_stop_def on_stop_def pid_Set0_def split: if_splits stop_sender.splits)
  have "no_pulse_to_cancel s1" using n by (simp add: no_pulse_to_cancel_def)
  from run_stop_hangs[OF l this r] k show ?thesis by (simp add: stop_hangs_def)
qed

theorem stop_branch_hangs_without_pulse_witness:
  "step exact_lib (RecvStop External) (heating_1000\<lparr>stop_senders := 1\<rparr>)
     = Some (on_stop exact_lib heating_1000) \<and>
   pulses (on_stop exact_lib heating_1000) = [] \<and>
   run exact_lib [StopArrive] (on_stop exact_lib heating_1000)
     = Some ((on_stop exact_lib heating_1000)\<lparr>stop_senders := 1\<rparr>) \<and>
   loc ((on_stop exact_lib heating_1000)\<lparr>stop_senders := 1\<rparr>) = SendCancel \<and>
   Running (coil ((on_stop exact_lib heating_1000)\<lparr>stop_senders := 1\<rparr>)) \<and>
   statf_written ((on_stop exact_lib heating_1000)\<lparr>stop_senders := 1\<rparr>) = []"
proof -
  note scene = coil_1000_def heating_1000_def
  let ?s1 = "on_stop exact_lib heating_1000"
  have st: "step exact_lib (RecvStop External) (heating_1000\<lparr>stop_senders := 1\<rparr>) = Some ?s1"
    by (simp add: scene lib_eval coil_eval)
  have p: "pulses ?s1 = []" by (simp add: scene lib_eval coil_eval)
  then have n: "\<forall>p\<in>set (pulses ?s1). \<not> may_take_cancel p" by simp
  have r: "run exact_lib [StopArrive] ?s1 = Some (?s1\<lparr>stop_senders := 1\<rparr>)"
    by (simp add: scene lib_eval coil_eval)
  have b: "Running (coil (heating_1000\<lparr>stop_senders := 1\<rparr>))"
      "statf_written (heating_1000\<lparr>stop_senders := 1\<rparr>) = []"
    by (simp_all add: scene lib_eval coil_eval)
  from stop_branch_hangs_without_pulse[OF st n r] b
  have l: "loc (?s1\<lparr>stop_senders := 1\<rparr>) = SendCancel"
    and u: "Running (coil (?s1\<lparr>stop_senders := 1\<rparr>))"
    and w: "statf_written (?s1\<lparr>stop_senders := 1\<rparr>) = []"
    by simp_all
  show ?thesis by (intro conjI st p r l u w)
qed

text \<open>
  Before the first sample that succeeds \<open>nonInitialRun\<close> is false, and a tick then never
  ends at the send after the temperature check, whatever the two temperatures are.
\<close>

theorem first_sample_is_not_checked:
  assumes "\<not> nonInitialRun (coil s)"
      and "run L [Tick r now, TickAssign, ErrTest now'] s = Some s1"
  shows "loc s1 \<noteq> SendStopJump"
proof -
  obtain e c1 where u: "updateTemp L r now (coil s) = (e, c1)"
    by (cases "updateTemp L r now (coil s)")
  from updateTemp_keeps[OF u] assms(1) have calm: "\<not> temp_jumped L (Temp (coil s)) c1"
    by (simp add: temp_jumped_def)
  show ?thesis
  proof (cases e)
    case None
    from tick_calm[OF assms(2) u[unfolded None] calm] show ?thesis
      by (simp add: tick_rest_def Let_def split: prod.splits)
  next
    case (Some x)
    from tick_read_fault[OF assms(2) u[unfolded Some]] show ?thesis by simp
  qed
qed

theorem first_sample_is_not_checked_witness:
  "\<not> nonInitialRun (coil heating_1000) \<and>
   map_option (\<lambda>s. (loc s, Temp (coil s)))
     (run exact_lib [Tick (reads ''999'') 5, TickAssign, ErrTest 5] heating_1000)
     = Some (AtSelect, 9631 / 20)"
proof -
  note scene = coil_1000_def heating_1000_def reads_def
  have n: "\<not> nonInitialRun (coil heating_1000)" by (simp add: scene coil_eval)
  obtain s1 where st: "run exact_lib [Tick (reads ''999'') 5, TickAssign, ErrTest 5] heating_1000
                         = Some s1"
      and t: "Temp (coil s1) = 9631 / 20"
      and l: "loc s1 = AtSelect \<or> loc s1 = SendStopJump"
    by (simp add: scene lib_eval coil_eval)
  from first_sample_is_not_checked[OF n st] l have "loc s1 = AtSelect" by simp
  with n t show ?thesis unfolding st by simp
qed

text \<open>
  A tick that finds no fault ends back at the \<open>select\<close>, whatever the frame goroutines of
  earlier ticks are doing: it starts one pulse goroutine and one frame goroutine and does
  not wait for either.
\<close>

theorem tick_does_not_wait_for_frames:
  assumes st: "run L [Tick r now, TickAssign, ErrTest now'] s = Some s1"
      and ok: "updateTemp L r now (coil s) = (None, c1)"
      and calm: "\<not> temp_jumped L (Temp (coil s)) c1"
  shows "loc s1 = AtSelect \<and> framers s1 = framers s @ [FSpawned now'] \<and>
         pulses s1 = pulses s @ [PSpawned] \<and> updates s1 = updates s + 1"
  using tick_calm[OF st ok calm]
  by (simp add: tick_rest_def Let_def split: prod.splits)

theorem tick_does_not_wait_for_frames_witness:
  "run exact_lib [Tick (reads ''120'') 9, TickAssign, ErrTest 9] pulsing_1000
     = Some second_tick_1000 \<and>
   fst (updateTemp exact_lib (reads ''120'') 9 (coil pulsing_1000)) = None \<and>
   \<not> temp_jumped exact_lib (Temp (coil pulsing_1000))
        (snd (updateTemp exact_lib (reads ''120'') 9 (coil pulsing_1000))) \<and>
   framers pulsing_1000 = [FSpawned 5] \<and>
   loc second_tick_1000 = AtSelect \<and> framers second_tick_1000 = [FSpawned 5, FSpawned 9]"
proof -
  note scene = coil_1000_def heating_1000_def sampled_1000_def pulsing_1000_def
    second_tick_1000_def reads_def
  let ?c1 = "snd (updateTemp exact_lib (reads ''120'') 9 (coil pulsing_1000))"
  have st: "run exact_lib [Tick (reads ''120'') 9, TickAssign, ErrTest 9] pulsing_1000
              = Some second_tick_1000"
    by (simp add: scene lib_eval coil_eval)
  have f: "fst (updateTemp exact_lib (reads ''120'') 9 (coil pulsing_1000)) = None"
    by (simp add: scene lib_eval coil_eval)
  have calm: "\<not> temp_jumped exact_lib (Temp (coil pulsing_1000)) ?c1"
    by (simp add: scene lib_eval coil_eval)
  have ok: "updateTemp exact_lib (reads ''120'') 9 (coil pulsing_1000) = (None, ?c1)"
    using f by (simp add: prod_eq_iff)
  have fr: "framers pulsing_1000 = [FSpawned 5]"
    by (simp add: scene lib_eval coil_eval)
  from tick_does_not_wait_for_frames[OF st ok calm] fr
  have l: "loc second_tick_1000 = AtSelect"
    and g: "framers second_tick_1000 = [FSpawned 5, FSpawned 9]"
    by simp_all
  show ?thesis by (intro conjI st f calm fr l g)
qed

section \<open>The fire time of published frames\<close>

lemma Milliseconds_of_ms:
  assumes "0 \<le> sint d" and "sint d \<le> 9223372036854"
  shows "Milliseconds (d * Millisecond) = d"
proof -
  have s1: "sint (1000000 :: 64 word) = 1000000" by simp
  have "sint (d * 1000000) = signed_take_bit 63 (sint d * 1000000)"
    using s1 by (simp add: sint_word_ariths)
  also have "\<dots> = sint d * 1000000"
    using assms by (simp add: signed_take_bit_int_eq_self_iff)
  finally have m: "sint (d * 1000000) = sint d * 1000000" .
  have "(sint d * 1000000) sdiv 1000000 = sint d"
    using assms by (simp add: signed_divide_int_def sgn_mult abs_mult sgn_if)
  then show ?thesis by (simp add: Milliseconds_def Millisecond_def m)
qed

lemma sint_minus_15:
  assumes "15 \<le> sint (max64 :: int64)" and "sint max64 \<le> 9223372036854"
  shows "sint (max64 - 15) = sint max64 - 15"
  using assms by (simp add: sint_word_ariths signed_take_bit_int_eq_self_iff)

text \<open>
  With the limits \<open>NewCoil\<close> sets, \<open>0\<close> and \<open>float64(max - 15)\<close>, the output of
  \<open>pid.Update\<close> converts to a duration between 0 and \<open>max - 15\<close>.
\<close>

lemma update_within_limits:
  assumes pc: "pid_contract L lims" and fc: "float64_contract L"
      and lo: "15 \<le> sint max64" and hi: "sint max64 \<le> 9223372036854"
      and lq: "lims q = (fconst L 0, float64_of_int64 L (max64 - 15))"
  shows "0 \<le> sint (Duration_of_float64 L (fst (pid_Update L now t q))) \<and>
         sint (Duration_of_float64 L (fst (pid_Update L now t q))) \<le> sint max64 - 15"
proof -
  let ?n = "max64 - 15"
  let ?out = "fst (pid_Update L now t q)"
  have m: "sint ?n = sint max64 - 15" using lo hi by (rule sint_minus_15)
  have n: "0 \<le> sint ?n \<and> sint ?n \<le> 2 ^ 53" using lo hi m by simp
  from fc n have g: "fge L (float64_of_int64 L ?n) (fconst L 0)"
    and conv: "\<forall>x. fge L x (fconst L 0) \<and> fge L (float64_of_int64 L ?n) x \<longrightarrow>
                 0 \<le> sint (Duration_of_float64 L x) \<and> sint (Duration_of_float64 L x) \<le> sint ?n"
    unfolding float64_contract_def by blast+
  from pc have "fge L (snd (lims q)) (fst (lims q)) \<longrightarrow>
         fge L ?out (fst (lims q)) \<and> fge L (snd (lims q)) ?out"
    unfolding pid_contract_def by blast
  with g lq have "fge L ?out (fconst L 0) \<and> fge L (float64_of_int64 L ?n) ?out" by simp
  with conv have "0 \<le> sint (Duration_of_float64 L ?out) \<and>
                  sint (Duration_of_float64 L ?out) \<le> sint ?n" by blast
  with m show ?thesis by simp
qed

lemma coil_inv_pid_Set0:
  assumes "pid_contract L lims" and "coil_inv L lims max64 s"
  shows "coil_inv L lims max64 (pid_Set0 L s)"
  using assms by (simp add: coil_inv_def pid_contract_def pid_Set0_def)

lemma coil_inv_loc: "coil_inv L lims max64 (s\<lparr>loc := l\<rparr>) = coil_inv L lims max64 s"
  by (simp add: coil_inv_def)

lemma coil_inv_err: "coil_inv L lims max64 (s\<lparr>err := e\<rparr>) = coil_inv L lims max64 s"
  by (simp add: coil_inv_def)

lemma coil_inv_pulses: "coil_inv L lims max64 (s\<lparr>pulses := ps\<rparr>) = coil_inv L lims max64 s"
  by (simp add: coil_inv_def)

lemma coil_inv_tick_rest:
  assumes pc: "pid_contract L lims" and fc: "float64_contract L"
      and inv: "coil_inv L lims max64 s"
      and lo: "15 \<le> sint max64" and hi: "sint max64 \<le> 9223372036854"
  shows "coil_inv L lims max64 (tick_rest L now s)"
proof -
  obtain out p' where u: "pid_Update L now (Temp (coil s)) (pid (coil s)) = (out, p')"
    by (cases "pid_Update L now (Temp (coil s)) (pid (coil s))")
  let ?d = "Duration_of_float64 L out"
  have lq: "lims (pid (coil s)) = (fconst L 0, float64_of_int64 L (max64 - 15))"
    using inv by (simp add: coil_inv_def)
  from update_within_limits[OF pc fc lo hi lq, of now "Temp (coil s)"] u
  have d0: "0 \<le> sint ?d" and d1: "sint ?d \<le> sint max64 - 15" by simp_all
  from pc have "lims (snd (pid_Update L now (Temp (coil s)) (pid (coil s)))) = lims (pid (coil s))"
    unfolding pid_contract_def by blast
  with u lq have lq': "lims p' = (fconst L 0, float64_of_int64 L (max64 - 15))" by simp
  have ms: "Milliseconds (?d * Millisecond) = ?d"
    using d0 d1 hi by (intro Milliseconds_of_ms) auto
  show ?thesis
    using inv lq' d0 d1 by (auto simp: coil_inv_def tick_rest_def Let_def u ms)
qed

lemma coil_inv_tick_check:
  assumes pc: "pid_contract L lims" and fc: "float64_contract L"
      and inv: "coil_inv L lims max64 s"
      and lo: "15 \<le> sint max64" and hi: "sint max64 \<le> 9223372036854"
  shows "coil_inv L lims max64 (tick_check L now oldTemp s)"
  using coil_inv_tick_rest[OF pc fc inv lo hi] coil_inv_pid_Set0[OF pc inv]
  by (simp add: tick_check_def coil_inv_loc)

lemma coil_inv_coil_update:
  assumes "coil_inv L lims max64 s" and "window c' = window (coil s)"
      and "pid c' = pid (coil s)" and "FireTime c' = FireTime (coil s)"
  shows "coil_inv L lims max64 (s\<lparr>coil := c'\<rparr>)"
  using assms by (simp add: coil_inv_def)

lemma coil_inv_tick_sample:
  assumes inv: "coil_inv L lims max64 s"
  shows "coil_inv L lims max64 (tick_sample L r now s)"
proof -
  obtain e c1 where u: "updateTemp L r now (coil s) = (e, c1)"
    by (cases "updateTemp L r now (coil s)")
  have "coil_inv L lims max64 (s\<lparr>coil := c1\<rparr>)"
    using updateTemp_keeps[OF u] inv by (intro coil_inv_coil_update) auto
  then show ?thesis by (simp add: tick_sample_def u Let_def coil_inv_def)
qed

lemma coil_inv_step:
  assumes pc: "pid_contract L lims" and fc: "float64_contract L"
      and inv: "coil_inv L lims max64 s"
      and lo: "15 \<le> sint max64" and hi: "sint max64 \<le> 9223372036854"
      and st: "step L a s = Some s'"
  shows "coil_inv L lims max64 s'"
proof (cases a)
  case GoRun
  with inv st show ?thesis by (auto simp: coil_inv_def split: if_splits)
next
  case (Tick r now)
  with st have "s' = tick_sample L r now s" by (auto split: if_splits)
  then show ?thesis using coil_inv_tick_sample[OF inv] by simp
next
  case TickAssign
  with inv st show ?thesis
    by (auto simp: coil_inv_def tick_assign_def split: if_splits loop_loc.splits)
next
  case (ErrTest now)
  with st have "(\<exists>old. s' = (pid_Set0 L s)\<lparr>loc := SendStopRead old\<rparr>) \<or>
                (\<exists>old. s' = tick_check L now old s)"
    by (auto simp: tick_test_def split: if_splits loop_loc.splits option.splits)
  then show ?thesis
    using coil_inv_tick_check[OF pc fc inv lo hi] coil_inv_pid_Set0[OF pc inv]
    by (auto simp: coil_inv_loc)
next
  case (SetTargetCmd v)
  with inv st pc show ?thesis by (auto simp: coil_inv_def pid_contract_def split: if_splits)
next
  case StopArrive
  with inv st show ?thesis by (auto simp: coil_inv_def split: if_splits)
next
  case (RecvStop src)
  with inv st pc show ?thesis
    by (auto simp: coil_inv_def pid_contract_def recv_stop_def on_stop_def pid_Set0_def
             split: if_splits stop_sender.splits)
next
  case (LoopStopSent now)
  with st have "(\<exists>old. s' = tick_check L now old s) \<or> s' = tick_rest L now s"
    by (auto simp: loop_stop_sent_def split: if_splits loop_loc.splits)
  then show ?thesis
    using coil_inv_tick_check[OF pc fc inv lo hi] coil_inv_tick_rest[OF pc fc inv lo hi] by auto
next
  case (Cancel i ok)
  with inv st show ?thesis
    by (auto simp: coil_inv_def on_cancel_def statf_Write_def Let_def
             split: if_splits pulse.splits)
next
  case StopAssign
  with inv st show ?thesis
    by (auto simp: coil_inv_def stop_assign_def split: if_splits loop_loc.splits)
next
  case StopTest
  with inv st show ?thesis
    by (auto simp: coil_inv_def stop_test_def run_deferred_def
             split: if_splits loop_loc.splits option.splits)
next
  case (PulseBegin i ok)
  with inv st show ?thesis
    by (auto simp: coil_inv_def pulse_begin_def statf_Write_def Let_def split: if_splits)
next
  case (PulseTimer i ok)
  with inv st show ?thesis
    by (auto simp: coil_inv_def pulse_timer_def statf_Write_def Let_def
             split: if_splits pulse.splits)
next
  case (PulseAssign i)
  with inv st show ?thesis
    by (auto simp: coil_inv_def pulse_assign_def split: if_splits pulse.splits)
next
  case (PulseTest i)
  with st have "s' = (pid_Set0 L s)\<lparr>pulses := (pulses s)[i := PSendStop]\<rparr> \<or>
                s' = s\<lparr>pulses := (pulses s)[i := PDone]\<rparr>"
    by (auto simp: pulse_test_def split: if_splits option.splits)
  then show ?thesis
    using inv coil_inv_pid_Set0[OF pc inv] by (auto simp: coil_inv_pulses)
next
  case (FrameBuild j)
  from st FrameBuild have fb: "frame_build L j s = Some s'" by (auto split: if_splits)
  then obtain fs where j: "j < length (framers s)" and fj: "framers s ! j = FSpawned fs"
    by (auto simp: frame_build_def split: if_splits framer.splits)
  let ?f = "\<lparr>Temp_frame = Temp (coil s), Target = pid_Get L (pid (coil s)), FrameStart = fs,
             FrameDuration = Milliseconds (window (coil s)),
             FireTime_frame = Milliseconds (FireTime (coil s))\<rparr>"
  have s': "s' = s\<lparr>framers := (framers s)[j := FSelect ?f], published := published s @ [?f]\<rparr>"
    using fb j fj by (simp add: frame_build_def Let_def)
  have w: "Milliseconds (window (coil s)) = max64"
    using inv lo hi by (simp add: coil_inv_def Milliseconds_of_ms)
  have fw: "frame_in_window max64 ?f"
    using inv w by (simp add: frame_in_window_def coil_inv_def)
  have "\<forall>fr\<in>set ((framers s)[j := FSelect ?f]). \<forall>f. offered fr = Some f \<longrightarrow> f \<in> set (published s @ [?f])"
  proof
    fix fr assume "fr \<in> set ((framers s)[j := FSelect ?f])"
    then have "fr = FSelect ?f \<or> fr \<in> set (framers s)"
      using set_update_subset_insert[of "framers s" j "FSelect ?f"] by auto
    then show "\<forall>f. offered fr = Some f \<longrightarrow> f \<in> set (published s @ [?f])"
      using inv by (auto simp: coil_inv_def)
  qed
  then show ?thesis using inv fw by (auto simp: s' coil_inv_def)
next
  case (FrameToHub k)
  from st FrameToHub obtain f where k: "k < length (framers s)" and fk: "offered (framers s ! k) = Some f"
      and s': "s' = (frame_sent k f s)\<lparr>hub_recv := hub_recv s @ [f]\<rparr>"
    by (auto simp: frame_to_hub_def split: if_splits option.splits)
  have fin: "f \<in> set (published s)"
    using inv k fk nth_mem[OF k] by (auto simp: coil_inv_def)
  have "\<forall>fr\<in>set ((framers s)[k := FDone]). \<forall>f. offered fr = Some f \<longrightarrow> f \<in> set (published s)"
  proof
    fix fr assume "fr \<in> set ((framers s)[k := FDone])"
    then have "fr = FDone \<or> fr \<in> set (framers s)"
      using set_update_subset_insert[of "framers s" k FDone] by auto
    then show "\<forall>f. offered fr = Some f \<longrightarrow> f \<in> set (published s)"
      using inv by (auto simp: coil_inv_def)
  qed
  then show ?thesis using inv fin by (auto simp: s' frame_sent_def coil_inv_def)
next
  case (FrameSwap j k)
  from st FrameSwap obtain fj fk where j: "j < length (framers s)" and k: "k < length (framers s)"
      and sj: "framers s ! j = FSelect fj" and fk: "offered (framers s ! k) = Some fk"
      and s': "s' = (frame_sent k fk s)\<lparr>framers := (framers (frame_sent k fk s))[j := FSend fj]\<rparr>"
    by (auto simp: frame_swap_def split: if_splits option.splits framer.splits)
  have fjin: "fj \<in> set (published s)"
    using inv j sj nth_mem[OF j] by (auto simp: coil_inv_def)
  have "\<forall>fr\<in>set ((framers s)[k := FDone, j := FSend fj]). \<forall>f. offered fr = Some f \<longrightarrow> f \<in> set (published s)"
  proof
    fix fr assume "fr \<in> set ((framers s)[k := FDone, j := FSend fj])"
    then have "fr = FSend fj \<or> fr \<in> set ((framers s)[k := FDone])"
      using set_update_subset_insert[of "(framers s)[k := FDone]" j "FSend fj"] by auto
    then have "fr = FSend fj \<or> fr = FDone \<or> fr \<in> set (framers s)"
      using set_update_subset_insert[of "framers s" k FDone] by auto
    then show "\<forall>f. offered fr = Some f \<longrightarrow> f \<in> set (published s)"
      using inv fjin by (auto simp: coil_inv_def)
  qed
  then show ?thesis using inv by (auto simp: s' frame_sent_def coil_inv_def)
qed

lemma coil_inv_run:
  assumes pc: "pid_contract L lims" and fc: "float64_contract L"
      and lo: "15 \<le> sint max64" and hi: "sint max64 \<le> 9223372036854"
  shows "coil_inv L lims max64 s \<Longrightarrow> run L as s = Some s' \<Longrightarrow> coil_inv L lims max64 s'"
proof (induction as arbitrary: s)
  case Nil
  then show ?case by simp
next
  case (Cons a as)
  from Cons.prems(2) obtain s1 where s1: "step L a s = Some s1" and r: "run L as s1 = Some s'"
    by (auto split: option.splits)
  show ?case using Cons.IH[OF coil_inv_step[OF pc fc Cons.prems(1) lo hi s1] r] .
qed

text \<open>What \<open>NewCoil\<close> sets: the window, and the limits of the controller.\<close>

lemma NewCoil_fields:
  assumes "NewCoil L getenv open_temp open_stat = Inr c0"
      and "ParseInt L (getenv ''PI_HEATER_PID_MAX'') = Inr max64"
  shows "window c0 = max64 * Millisecond \<and> FireTime c0 = 0 \<and>
         (\<exists>q. pid c0 = SetOutputLimits L (fconst L 0) (float64_of_int64 L (max64 - 15)) q)"
  using assms by (auto simp: NewCoil_def Let_def split: sum.splits if_splits)

lemma coil_inv_start:
  assumes new: "NewCoil L getenv open_temp open_stat = Inr c0"
      and mx: "ParseInt L (getenv ''PI_HEATER_PID_MAX'') = Inr max64"
      and lo: "15 \<le> sint max64" and pc: "pid_contract L lims"
  shows "coil_inv L lims max64 (sys_of c0)"
proof -
  from NewCoil_fields[OF new mx] obtain q where w: "window c0 = max64 * Millisecond"
    and f: "FireTime c0 = 0"
    and p: "pid c0 = SetOutputLimits L (fconst L 0) (float64_of_int64 L (max64 - 15)) q"
    by blast
  from pc have "lims (SetOutputLimits L (fconst L 0) (float64_of_int64 L (max64 - 15)) q)
                  = (fconst L 0, float64_of_int64 L (max64 - 15))"
    unfolding pid_contract_def by blast
  with p have "lims (pid c0) = (fconst L 0, float64_of_int64 L (max64 - 15))" by simp
  with w f lo show ?thesis by (simp add: coil_inv_def sys_of_def Milliseconds_def)
qed

text \<open>A system whose clock does not tick never enters the timer branch.\<close>

lemma never_ticked_step:
  assumes nt: "never_ticked s" and st: "step L a s = Some s'"
  shows "never_ticked s'"
proof (cases a)
  case GoRun
  with nt st show ?thesis by (auto simp: never_ticked_def clock_ticks_def split: if_splits)
next
  case (Tick r now)
  with nt st show ?thesis by (auto simp: never_ticked_def split: if_splits)
next
  case TickAssign
  with nt st show ?thesis
    by (auto simp: never_ticked_def tick_assign_def split: if_splits loop_loc.splits)
next
  case (ErrTest now)
  with nt st show ?thesis
    by (auto simp: never_ticked_def tick_test_def split: if_splits loop_loc.splits)
next
  case (SetTargetCmd v)
  with nt st show ?thesis by (auto simp: never_ticked_def clock_ticks_def split: if_splits)
next
  case StopArrive
  with nt st show ?thesis by (auto simp: never_ticked_def clock_ticks_def split: if_splits)
next
  case (RecvStop src)
  with nt st show ?thesis
    by (auto simp: never_ticked_def clock_ticks_def recv_stop_def on_stop_def pid_Set0_def
             split: if_splits stop_sender.splits)
next
  case (LoopStopSent now)
  with nt st show ?thesis
    by (auto simp: never_ticked_def loop_stop_sent_def Stop_receiver_waiting_def
             split: if_splits loop_loc.splits)
next
  case (Cancel i ok)
  with nt st show ?thesis
    by (auto simp: never_ticked_def clock_ticks_def on_cancel_def statf_Write_def Let_def
             split: if_splits pulse.splits)
next
  case StopAssign
  with nt st show ?thesis
    by (auto simp: never_ticked_def clock_ticks_def stop_assign_def
             split: if_splits loop_loc.splits)
next
  case StopTest
  with nt st show ?thesis
    by (auto simp: never_ticked_def clock_ticks_def stop_test_def run_deferred_def
             split: if_splits loop_loc.splits option.splits)
next
  case (PulseBegin i ok)
  with nt st show ?thesis
    by (auto simp: never_ticked_def clock_ticks_def pulse_begin_def statf_Write_def Let_def
             split: if_splits)
next
  case (PulseTimer i ok)
  with nt st show ?thesis
    by (auto simp: never_ticked_def clock_ticks_def pulse_timer_def statf_Write_def Let_def
             split: if_splits pulse.splits)
next
  case (PulseAssign i)
  with nt st show ?thesis
    by (auto simp: never_ticked_def clock_ticks_def pulse_assign_def
             split: if_splits pulse.splits)
next
  case (PulseTest i)
  with nt st show ?thesis
    by (auto simp: never_ticked_def clock_ticks_def pulse_test_def pid_Set0_def
             split: if_splits option.splits)
next
  case (FrameBuild j)
  with nt st show ?thesis by (auto simp: never_ticked_def frame_build_def split: if_splits)
next
  case (FrameToHub k)
  with nt st show ?thesis by (auto simp: never_ticked_def frame_to_hub_def split: if_splits)
next
  case (FrameSwap j k)
  with nt st show ?thesis by (auto simp: never_ticked_def frame_swap_def split: if_splits)
qed

lemma never_ticked_run:
  "never_ticked s \<Longrightarrow> run L as s = Some s' \<Longrightarrow> never_ticked s'"
proof (induction as arbitrary: s)
  case Nil
  then show ?case by simp
next
  case (Cons a as)
  from Cons.prems(2) obtain s1 where s1: "step L a s = Some s1" and r: "run L as s1 = Some s'"
    by (auto split: option.splits)
  show ?case using Cons.IH[OF never_ticked_step[OF Cons.prems(1) s1] r] .
qed

text \<open>
  Windows that are not positive: \<open>max\<close> from -9223372036854 to 0, where nothing wraps,
  and \<open>max\<close> from 9223372036855 to 18446744073709, where the product with
  \<open>time.Millisecond\<close> wraps to a negative duration.
\<close>

lemma window_not_positive:
  assumes "- 9223372036854 \<le> sint (m :: int64) \<and> sint m \<le> 0 \<or>
           9223372036855 \<le> sint m \<and> sint m \<le> 18446744073709"
  shows "\<not> 0 <s m * Millisecond"
proof -
  have s1: "sint (1000000 :: 64 word) = 1000000" by simp
  have e: "sint (m * 1000000) = signed_take_bit 63 (sint m * 1000000)"
    using s1 by (simp add: sint_word_ariths)
  from assms show ?thesis
  proof
    assume a: "- 9223372036854 \<le> sint m \<and> sint m \<le> 0"
    then have "signed_take_bit 63 (sint m * 1000000) = sint m * 1000000"
      by (simp add: signed_take_bit_int_eq_self_iff)
    with e a show ?thesis by (simp add: word_sless_alt Millisecond_def)
  next
    assume a: "9223372036855 \<le> sint m \<and> sint m \<le> 18446744073709"
    let ?x = "sint m * 1000000"
    have r: "9223372036854775808 \<le> ?x" "?x < 18446744073709551616" using a by simp_all
    have "(?x + 9223372036854775808) mod 18446744073709551616 = ?x - 9223372036854775808"
      using r by (intro int_mod_pos_eq[where q = 1]) simp_all
    then have "signed_take_bit 63 ?x = ?x - 18446744073709551616"
      by (simp add: signed_take_bit_eq_take_bit_shift take_bit_eq_mod)
    with e r show ?thesis by (simp add: word_sless_alt Millisecond_def)
  qed
qed

text \<open>The instance of the library meets what is assumed of the library.\<close>

lemma exact_lib_pid_contract:
  "pid_contract exact_lib (\<lambda>q. (outMin q, outMax q))"
  by (simp add: pid_contract_def exact_lib_def clamp_def)

lemma exact_lib_float64_contract: "float64_contract exact_lib"
proof -
  have pos: "0 \<le> (signed n :: rat)" if "0 \<le> sint n" for n :: int64
  proof -
    have "(0 :: rat) \<le> of_int (sint n)" using that by (simp only: of_int_0_le_iff)
    then show ?thesis by (simp only: of_int_sint)
  qed
  have conv: "0 \<le> sint (word_of_int (trunc_rat x) :: int64) \<and>
              sint (word_of_int (trunc_rat x) :: int64) \<le> sint n"
    if x0: "0 \<le> x" and xn: "x \<le> signed n" for x :: rat and n :: int64
  proof -
    have xn': "x \<le> of_int (sint n)" using xn by (simp only: of_int_sint)
    have t: "trunc_rat x = \<lfloor>x\<rfloor>" using x0 by (simp add: trunc_rat_def)
    have f0: "0 \<le> \<lfloor>x\<rfloor>" using x0 by simp
    have f1: "\<lfloor>x\<rfloor> \<le> sint n" using floor_mono[OF xn'] by (simp only: floor_of_int)
    have w: "sint (word_of_int k :: int64) = k" if "0 \<le> k" and "k \<le> sint n" for k
      using that sint_lt[of n] by (simp add: sint_sbintrunc' signed_take_bit_int_eq_self_iff)
    from w[OF f0 f1] f0 f1 t show ?thesis by simp
  qed
  show ?thesis
    unfolding float64_contract_def
    by (auto simp: exact_lib_def dest: conv pos)
qed

text \<open>
  Claim C5, amended. Let the controller and \<open>float64\<close> be as assumed above, and let the
  window length \<open>max64\<close> read from \<open>PI_HEATER_PID_MAX\<close> either be at least 15 ms and at
  most 9223372036854 ms, so that it fits \<open>time.Duration\<close> in nanoseconds, or be such that
  the window \<open>time.Duration(max) * time.Millisecond\<close> is not positive, so that the clock
  never ticks. Then in every state the system can reach, every frame built by a frame
  goroutine, and so every frame the hub receives, has \<open>FrameDuration = max64\<close> and
  \<open>0 \<le> FireTime \<le> FrameDuration - 15\<close>. The bound comes from the limits \<open>NewCoil\<close>
  gives the controller, 0 and \<open>max64 - 15\<close>.
\<close>

theorem fire_time_within_window:
  assumes new: "NewCoil L getenv open_temp open_stat = Inr c0"
      and mx: "ParseInt L (getenv ''PI_HEATER_PID_MAX'') = Inr max64"
      and range: "15 \<le> sint max64 \<and> sint max64 \<le> 9223372036854 \<or>
                  \<not> 0 <s max64 * Millisecond"
      and pc: "pid_contract L lims" and fc: "float64_contract L"
      and r: "run L as (sys_of c0) = Some s"
  shows "\<forall>f \<in> set (published s) \<union> set (hub_recv s).
           FrameDuration f = max64 \<and> 0 \<le> sint (FireTime_frame f) \<and>
           sint (FireTime_frame f) \<le> sint (FrameDuration f) - 15"
  using range
proof
  assume b: "15 \<le> sint max64 \<and> sint max64 \<le> 9223372036854"
  then have lo: "15 \<le> sint max64" and hi: "sint max64 \<le> 9223372036854" by simp_all
  have "coil_inv L lims max64 s"
    using coil_inv_run[OF pc fc lo hi coil_inv_start[OF new mx lo pc] r] .
  then show ?thesis by (auto simp: coil_inv_def frame_in_window_def)
next
  assume n: "\<not> 0 <s max64 * Millisecond"
  from NewCoil_fields[OF new mx] have "window c0 = max64 * Millisecond" by blast
  with n have "never_ticked (sys_of c0)"
    by (simp add: never_ticked_def clock_ticks_def sys_of_def)
  from never_ticked_run[OF this r] show ?thesis by (simp add: never_ticked_def)
qed

theorem fire_time_within_window_witness:
  "NewCoil exact_lib (env_of ''1000'') True True = Inr coil_1000 \<and>
   ParseInt exact_lib (env_of ''1000'' ''PI_HEATER_PID_MAX'') = Inr 1000 \<and>
   15 \<le> sint (1000 :: int64) \<and> sint (1000 :: int64) \<le> 9223372036854 \<and>
   pid_contract exact_lib (\<lambda>q. (outMin q, outMax q)) \<and> float64_contract exact_lib \<and>
   map_option (\<lambda>s. (published s, hub_recv s))
     (run exact_lib [GoRun, SetTargetCmd 100, Tick (reads ''100'') 5, TickAssign, ErrTest 5,
                     FrameBuild 0, FrameToHub 0]
        (sys_of coil_1000)) = Some ([frame_5], [frame_5]) \<and>
   FrameDuration frame_5 = 1000 \<and> 0 \<le> sint (FireTime_frame frame_5) \<and>
   sint (FireTime_frame frame_5) \<le> sint (FrameDuration frame_5) - 15"
proof -
  note scene = coil_1000_def frame_5_def reads_def
  have new: "NewCoil exact_lib (env_of ''1000'') True True = Inr coil_1000"
    by (rule NewCoil_1000)
  have mx: "ParseInt exact_lib (env_of ''1000'' ''PI_HEATER_PID_MAX'') = Inr 1000"
    by (simp add: lib_eval)
  have lo: "15 \<le> sint (1000 :: int64)" and hi: "sint (1000 :: int64) \<le> 9223372036854"
    by simp_all
  have range: "15 \<le> sint (1000 :: int64) \<and> sint (1000 :: int64) \<le> 9223372036854 \<or>
               \<not> 0 <s (1000 :: int64) * Millisecond"
    using lo hi by simp
  note pc = exact_lib_pid_contract and fc = exact_lib_float64_contract
  obtain s where r: "run exact_lib [GoRun, SetTargetCmd 100, Tick (reads ''100'') 5, TickAssign,
                        ErrTest 5, FrameBuild 0, FrameToHub 0] (sys_of coil_1000) = Some s"
      and p: "published s = [frame_5]" and h: "hub_recv s = [frame_5]"
    by (simp add: scene lib_eval coil_eval)
  have mem: "frame_5 \<in> set (published s) \<union> set (hub_recv s)" using p by simp
  from fire_time_within_window[OF new mx range pc fc r] mem
  have f: "FrameDuration frame_5 = 1000 \<and> 0 \<le> sint (FireTime_frame frame_5) \<and>
           sint (FireTime_frame frame_5) \<le> sint (FrameDuration frame_5) - 15"
    by blast
  have m: "map_option (\<lambda>s. (published s, hub_recv s))
     (run exact_lib [GoRun, SetTargetCmd 100, Tick (reads ''100'') 5, TickAssign, ErrTest 5,
                     FrameBuild 0, FrameToHub 0]
        (sys_of coil_1000)) = Some ([frame_5], [frame_5])"
    unfolding r using p h by simp
  from f have f1: "FrameDuration frame_5 = 1000" and f2: "0 \<le> sint (FireTime_frame frame_5)"
    and f3: "sint (FireTime_frame frame_5) \<le> sint (FrameDuration frame_5) - 15" by blast+
  show ?thesis by (intro conjI new mx lo hi pc fc m f1 f2 f3)
qed

text \<open>
  For a window of 18446744073710 ms the window in nanoseconds wraps to a positive
  duration, so the clock ticks. The controller's output 9223372036855 is within its
  limits \<open>[0, 18446744073695]\<close>, but \<open>time.Duration(9223372036855) * time.Millisecond\<close>
  wraps around, and the frame carries a negative fire time (and a frame duration of 0).
\<close>

theorem fire_time_overflow:
  "map_option (\<lambda>s. (map (\<lambda>f. (sint (FireTime_frame f), sint (FrameDuration f))) (published s),
                     outMin (pid (coil s)), outMax (pid (coil s)), updates s))
     (run_from ''18446744073710''
        [GoRun, SetTargetCmd 9223372036887, Tick (reads ''0'') 5, TickAssign, ErrTest 5,
         FrameBuild 0])
     = Some ([(- 9223372036854, 0)], 0, 18446744073695, 1)"
  by (simp add: run_from_def reads_def lib_eval coil_eval)

text \<open>
  For a window of 9223372036855 ms, the first beyond the range, the window in
  nanoseconds wraps to a negative duration and no tick is ever taken.
\<close>

lemma no_tick_for_wrapped_window:
  "map_option (\<lambda>s. (sint (window (coil s)), step exact_lib (Tick (reads ''0'') 5) s))
     (run_from ''9223372036855'' [GoRun]) = Some (- 9223372036854551616, None)"
  by (simp add: run_from_def reads_def lib_eval coil_eval)

section \<open>Pulses and frames in flight\<close>

text \<open>
  Claim C2. A tick does nothing about a pulse that is still in flight: a pulse goroutine
  that waits for its timer when the tick fires is still waiting after the tick, nothing
  has been written to the actuator for it, and unless the tick ended in a fault the loop
  has started one more pulse goroutine next to it. Nothing orders the writes of the two.
\<close>

theorem tick_neither_awaits_nor_cancels_pulse:
  assumes st: "run L [Tick r now, TickAssign, ErrTest now'] s = Some s1"
      and i: "i < length (pulses s)" and w: "pulses s ! i = PWaiting d"
  shows "i < length (pulses s1) \<and> pulses s1 ! i = PWaiting d \<and>
         statf_written s1 = statf_written s \<and>
         (loc s1 = AtSelect \<longrightarrow> pulses s1 = pulses s @ [PSpawned])"
proof -
  obtain e c1 where u: "updateTemp L r now (coil s) = (e, c1)"
    by (cases "updateTemp L r now (coil s)")
  show ?thesis
  proof (cases e)
    case (Some x)
    from tick_read_fault[OF st u[unfolded Some]] i w show ?thesis by simp
  next
    case None
    show ?thesis
    proof (cases "temp_jumped L (Temp (coil s)) c1")
      case True
      from tick_jump[OF st u[unfolded None] True] i w show ?thesis by simp
    next
      case False
      from tick_calm[OF st u[unfolded None] False] i w show ?thesis
        by (simp add: tick_rest_def Let_def nth_append split: prod.splits)
    qed
  qed
qed

theorem tick_neither_awaits_nor_cancels_pulse_witness:
  "run_from ''1000'' [GoRun, SetTargetCmd 100, Tick (reads ''100'') 5, TickAssign, ErrTest 5,
                     PulseBegin 0 True]
     = Some pulsing_1000 \<and>
   pulses pulsing_1000 ! 0 = PWaiting 23000000 \<and>
   run exact_lib [Tick (reads ''120'') 9, TickAssign, ErrTest 9] pulsing_1000
     = Some second_tick_1000 \<and>
   pulses second_tick_1000 = [PWaiting 23000000, PSpawned] \<and>
   step exact_lib (PulseBegin 1 True) second_tick_1000 = Some both_pulsing_1000 \<and>
   pulses both_pulsing_1000 = [PWaiting 23000000, PWaiting 14000000] \<and>
   statf_written both_pulsing_1000 = ''11''"
proof -
  note scene = coil_1000_def heating_1000_def sampled_1000_def pulsing_1000_def
    second_tick_1000_def run_from_def both_pulsing_1000_def reads_def
  have r: "run_from ''1000'' [GoRun, SetTargetCmd 100, Tick (reads ''100'') 5, TickAssign,
                             ErrTest 5, PulseBegin 0 True]
             = Some pulsing_1000"
    by (simp add: scene lib_eval coil_eval)
  have st: "run exact_lib [Tick (reads ''120'') 9, TickAssign, ErrTest 9] pulsing_1000
              = Some second_tick_1000"
    by (simp add: scene lib_eval coil_eval)
  have i: "0 < length (pulses pulsing_1000)" and w: "pulses pulsing_1000 ! 0 = PWaiting 23000000"
    and ps: "pulses pulsing_1000 = [PWaiting 23000000]"
    by (simp_all add: scene lib_eval coil_eval)
  have l: "loc second_tick_1000 = AtSelect"
    by (simp add: scene lib_eval coil_eval)
  from tick_neither_awaits_nor_cancels_pulse[OF st i w] l ps
  have p2: "pulses second_tick_1000 = [PWaiting 23000000, PSpawned]" by simp
  have b: "step exact_lib (PulseBegin 1 True) second_tick_1000 = Some both_pulsing_1000"
    by (simp add: scene lib_eval coil_eval)
  have p3: "pulses both_pulsing_1000 = [PWaiting 23000000, PWaiting 14000000]"
    and w3: "statf_written both_pulsing_1000 = ''11''"
    by (simp_all add: scene)
  show ?thesis by (intro conjI r w st p2 b p3 w3)
qed

text \<open>
  Claim C6. \<open>CurrentFrameChan\<close> has no capacity, so nothing is buffered in it: each frame
  is held by its own goroutine until a receiver takes it. With two frames pending, the
  older goroutine may receive the newer frame and drop it, and the hub then gets the
  older one as the latest; or the hub may take the newer frame first and the older one
  after it.
\<close>

theorem frame_bus_drops_newer_and_reorders:
  "map_option (\<lambda>s. (published s, hub_recv s, CurrentFrame (coil s)))
     (run_from ''1000'' [GoRun, SetTargetCmd 100, Tick (reads ''100'') 5, TickAssign, ErrTest 5,
                        FrameBuild 0, Tick (reads ''120'') 9, TickAssign, ErrTest 9,
                        FrameBuild 1, FrameSwap 0 1, FrameToHub 0])
     = Some ([frame_5, frame_9], [frame_5], frame_5) \<and>
   map_option (\<lambda>s. (published s, hub_recv s))
     (run_from ''1000'' [GoRun, SetTargetCmd 100, Tick (reads ''100'') 5, TickAssign, ErrTest 5,
                        FrameBuild 0, Tick (reads ''120'') 9, TickAssign, ErrTest 9,
                        FrameBuild 1, FrameToHub 1, FrameToHub 0])
     = Some ([frame_5, frame_9], [frame_9, frame_5])"
  by (simp add: frame_5_def frame_9_def run_from_def reads_def lib_eval coil_eval)

section \<open>Properties of the hub\<close>

lemma offer_frame_open:
  assumes "\<not> is_closed (sendq h c)" and "hloc h \<noteq> HPanicked"
  shows "offer_frame p c h =
           h\<lparr>sendq := (sendq h)(c := offered_to p (sendq h c)),
             clients := (if length (buf (sendq h c)) < send_cap then clients h
                         else (clients h)(c := None))\<rparr>"
  using assms by (simp add: offer_frame_def try_send_def close_send_def offered_to_def Let_def)

lemma broadcast_open:
  assumes "distinct cs" and "\<forall>c\<in>set cs. \<not> is_closed (sendq h c)" and "hloc h \<noteq> HPanicked"
  shows "broadcast p cs h =
           h\<lparr>sendq := (\<lambda>c. if c \<in> set cs then offered_to p (sendq h c) else sendq h c),
             clients := (\<lambda>c. if c \<in> set cs \<and> \<not> length (buf (sendq h c)) < send_cap
                             then None else clients h c)\<rparr>"
  using assms
proof (induction cs arbitrary: h)
  case Nil
  then show ?case by simp
next
  case (Cons c cs)
  let ?h1 = "offer_frame p c h"
  have o: "?h1 = h\<lparr>sendq := (sendq h)(c := offered_to p (sendq h c)),
             clients := (if length (buf (sendq h c)) < send_cap then clients h
                         else (clients h)(c := None))\<rparr>"
    using Cons.prems by (simp add: offer_frame_open)
  have c_notin: "c \<notin> set cs" and d: "distinct cs" using Cons.prems by auto
  have open1: "\<forall>x\<in>set cs. \<not> is_closed (sendq ?h1 x)"
    using Cons.prems c_notin by (auto simp: o)
  have np: "hloc ?h1 \<noteq> HPanicked" using Cons.prems by (simp add: o)
  have "broadcast p (c # cs) h = broadcast p cs ?h1" using Cons.prems by simp
  also have "\<dots> = ?h1\<lparr>sendq := (\<lambda>x. if x \<in> set cs then offered_to p (sendq ?h1 x) else sendq ?h1 x),
             clients := (\<lambda>x. if x \<in> set cs \<and> \<not> length (buf (sendq ?h1 x)) < send_cap
                             then None else clients ?h1 x)\<rparr>"
    by (rule Cons.IH[OF d open1 np])
  also have "\<dots> = h\<lparr>sendq := (\<lambda>x. if x \<in> set (c # cs) then offered_to p (sendq h x) else sendq h x),
             clients := (\<lambda>x. if x \<in> set (c # cs) \<and> \<not> length (buf (sendq h x)) < send_cap
                             then None else clients h x)\<rparr>"
  proof -
    have f: "(\<lambda>x. if x \<in> set cs then offered_to p (sendq ?h1 x) else sendq ?h1 x) =
             (\<lambda>x. if x \<in> set (c # cs) then offered_to p (sendq h x) else sendq h x)"
      using c_notin by (auto simp: o fun_eq_iff)
    have g: "(\<lambda>x. if x \<in> set cs \<and> \<not> length (buf (sendq ?h1 x)) < send_cap
                   then None else clients ?h1 x) =
             (\<lambda>x. if x \<in> set (c # cs) \<and> \<not> length (buf (sendq h x)) < send_cap
                   then None else clients h x)"
      using c_notin by (auto simp: o fun_eq_iff)
    show ?thesis unfolding f g by (simp add: o)
  qed
  finally show ?case .
qed

lemma notify_killed_open:
  assumes "\<not> is_closed (sendq h c)" and "hloc h \<noteq> HPanicked"
  shows "notify_killed c h = h\<lparr>sendq := (sendq h)(c := notified (sendq h c))\<rparr>"
  using assms by (simp add: notify_killed_def try_send_def close_send_def notified_def)

lemma stop_all_open:
  assumes "distinct cs" and "\<forall>c\<in>set cs. \<not> is_closed (sendq h c)" and "hloc h \<noteq> HPanicked"
  shows "stop_all cs h =
           h\<lparr>sendq := (\<lambda>c. if c \<in> set cs then notified (sendq h c) else sendq h c)\<rparr>"
  using assms
proof (induction cs arbitrary: h)
  case Nil
  then show ?case by simp
next
  case (Cons c cs)
  let ?h1 = "notify_killed c h"
  have o: "?h1 = h\<lparr>sendq := (sendq h)(c := notified (sendq h c))\<rparr>"
    using Cons.prems by (simp add: notify_killed_open)
  have c_notin: "c \<notin> set cs" and d: "distinct cs" using Cons.prems by auto
  have open1: "\<forall>x\<in>set cs. \<not> is_closed (sendq ?h1 x)"
    using Cons.prems c_notin by (auto simp: o)
  have np: "hloc ?h1 \<noteq> HPanicked" using Cons.prems by (simp add: o)
  have "stop_all (c # cs) h = stop_all cs ?h1" using Cons.prems by simp
  also have "\<dots> = ?h1\<lparr>sendq := (\<lambda>x. if x \<in> set cs then notified (sendq ?h1 x) else sendq ?h1 x)\<rparr>"
    by (rule Cons.IH[OF d open1 np])
  also have "\<dots> = h\<lparr>sendq := (\<lambda>x. if x \<in> set (c # cs) then notified (sendq h x) else sendq h x)\<rparr>"
  proof -
    have f: "(\<lambda>x. if x \<in> set cs then notified (sendq ?h1 x) else sendq ?h1 x) =
             (\<lambda>x. if x \<in> set (c # cs) then notified (sendq h x) else sendq h x)"
      using c_notin by (auto simp: o fun_eq_iff)
    show ?thesis unfolding f by (simp add: o)
  qed
  finally show ?case .
qed

lemma offered_to_cap: "length (buf ch) \<le> send_cap \<Longrightarrow> length (buf (offered_to p ch)) \<le> send_cap"
  by (simp add: offered_to_def)

lemma notified_cap: "length (buf ch) \<le> send_cap \<Longrightarrow> length (buf (notified ch)) \<le> send_cap"
  by (simp add: notified_def)

lemma hub_frame_inv:
  assumes inv: "hub_inv h" and sel: "hloc h = HSelect" and ro: "range_order order h"
  shows "hub_frame (Inr payload) order h =
           h\<lparr>sendq := (\<lambda>c. if c \<in> set order then offered_to payload (sendq h c) else sendq h c),
             clients := (\<lambda>c. if c \<in> set order \<and> \<not> length (buf (sendq h c)) < send_cap
                             then None else clients h c)\<rparr>"
proof -
  have "distinct order" and dom: "set order = dom (clients h)"
    using ro by (simp_all add: range_order_def)
  moreover have "\<forall>c\<in>set order. \<not> is_closed (sendq h c)"
    using inv sel dom by (auto simp: hub_inv_def)
  moreover have "hloc h \<noteq> HPanicked" using sel by simp
  ultimately show ?thesis by (simp add: hub_frame_def broadcast_open)
qed

lemma hub_stop_inv:
  assumes inv: "hub_inv h" and sel: "hloc h = HSelect" and ro: "range_order order h"
  shows "hub_stop order h =
           h\<lparr>hub_stop_senders := hub_stop_senders h - 1,
             sendq := (\<lambda>c. if c \<in> set order then notified (sendq h c) else sendq h c),
             running := False, hloc := HReturned, hub_wg := hub_wg h - 1\<rparr>"
proof -
  let ?h0 = "h\<lparr>hub_stop_senders := hub_stop_senders h - 1\<rparr>"
  have d: "distinct order" and dom: "set order = dom (clients h)"
    using ro by (simp_all add: range_order_def)
  have op: "\<forall>c\<in>set order. \<not> is_closed (sendq ?h0 c)"
    using inv sel dom by (auto simp: hub_inv_def)
  have np: "hloc ?h0 \<noteq> HPanicked" using sel by simp
  have "stop_all order ?h0 =
      ?h0\<lparr>sendq := (\<lambda>c. if c \<in> set order then notified (sendq h c) else sendq h c)\<rparr>"
    using stop_all_open[OF d op np] by (simp cong: if_cong)
  then show ?thesis using sel by (simp add: hub_stop_def Let_def)
qed

lemma hub_step_inv:
  assumes inv: "hub_inv h" and st: "hub_step a h = Some h'"
  shows "hub_inv h'"
proof (cases a)
  case HGoRun
  with assms show ?thesis by (auto simp: hub_inv_def split: if_splits)
next
  case HRegister
  with assms show ?thesis
    by (auto simp: hub_inv_def new_chan_def less_Suc_eq split: if_splits)
next
  case (HUnregister c)
  with assms show ?thesis
    by (auto simp: hub_inv_def hub_unregister_def close_send_def split: if_splits option.splits)
next
  case (HFrame m order)
  show ?thesis
  proof (cases m)
    case (Inl e)
    with HFrame assms show ?thesis
      by (auto simp: hub_inv_def hub_frame_def split: if_splits)
  next
    case (Inr payload)
    from st HFrame have sel: "hloc h = HSelect" and ro: "range_order order h"
      by (auto split: if_splits)
    have h': "h' = hub_frame (Inr payload) order h"
      using st HFrame Inr by (auto split: if_splits)
    show ?thesis
      unfolding h' hub_frame_inv[OF inv sel ro]
      using inv sel ro
      by (auto simp: hub_inv_def range_order_def offered_to_def)
  qed
next
  case HStopArrive
  with assms show ?thesis by (auto simp: hub_inv_def split: if_splits)
next
  case (HStop order)
  from st HStop have sel: "hloc h = HSelect" and ro: "range_order order h"
    by (auto split: if_splits)
  have h': "h' = hub_stop order h" using st HStop by (auto split: if_splits)
  show ?thesis
    unfolding h' hub_stop_inv[OF inv sel ro]
    using inv by (auto simp: hub_inv_def notified_def)
next
  case (HDrain c)
  from st HDrain have h': "h' = h\<lparr>sendq := (sendq h)(c := (sendq h c)\<lparr>buf := tl (buf (sendq h c))\<rparr>)\<rparr>"
    by (auto split: if_splits)
  have "length (buf (sendq h c)) \<le> send_cap" using inv by (simp add: hub_inv_def)
  then have "length (tl (buf (sendq h c))) \<le> send_cap" by simp
  then show ?thesis using inv by (auto simp: h' hub_inv_def)
qed

lemma NewHub_inv: "hub_inv NewHub"
  by (simp add: hub_inv_def NewHub_def new_chan_def send_cap_def)

lemma hub_run_inv: "hub_inv h \<Longrightarrow> hub_run as h = Some h' \<Longrightarrow> hub_inv h'"
proof (induction as arbitrary: h)
  case Nil
  then show ?case by simp
next
  case (Cons a as)
  from Cons.prems(2) obtain h1 where "hub_step a h = Some h1" and "hub_run as h1 = Some h'"
    by (auto split: option.splits)
  then show ?case using Cons.IH hub_step_inv[OF Cons.prems(1)] by blast
qed

text \<open>
  Claim C7, amended. When the hub processes a frame that \<open>json.Marshal\<close> has
  serialised, every registered client whose channel is full (256 messages) is evicted:
  its channel is closed, it is removed from the registry, and it gets nothing more.
  Every other registered client stays registered and gets the frame as the last message
  of its channel. No channel ever holds more than 256 messages.
\<close>

theorem broadcast_evicts_only_full:
  assumes reach: "hub_run as NewHub = Some h"
      and st: "hub_step (HFrame (Inr payload) order) h = Some h'"
  shows "hloc h' = HSelect \<and>
         (\<forall>c. clients h c \<noteq> None \<and> length (buf (sendq h c)) = send_cap \<longrightarrow>
              clients h' c = None \<and> is_closed (sendq h' c) \<and> buf (sendq h' c) = buf (sendq h c)) \<and>
         (\<forall>c. clients h c \<noteq> None \<and> length (buf (sendq h c)) < send_cap \<longrightarrow>
              clients h' c = clients h c \<and> \<not> is_closed (sendq h' c) \<and>
              buf (sendq h' c) = buf (sendq h c) @ [payload]) \<and>
         (\<forall>c. clients h c = None \<longrightarrow> clients h' c = None \<and> sendq h' c = sendq h c) \<and>
         (\<forall>c. length (buf (sendq h c)) \<le> send_cap \<and> length (buf (sendq h' c)) \<le> send_cap)"
proof -
  have inv: "hub_inv h" using hub_run_inv[OF NewHub_inv reach] .
  have inv': "hub_inv h'" using hub_step_inv[OF inv st] .
  from st have sel: "hloc h = HSelect" and ro: "range_order order h"
    by (auto split: if_splits)
  have h': "h' = hub_frame (Inr payload) order h" using st by (auto split: if_splits)
  note eq = h'[unfolded hub_frame_inv[OF inv sel ro]]
  have dom: "set order = dom (clients h)" using ro by (simp add: range_order_def)
  have op: "\<And>c. clients h c \<noteq> None \<Longrightarrow> \<not> is_closed (sendq h c)"
    using inv sel by (auto simp: hub_inv_def)
  have "hloc h' = HSelect" using sel by (simp add: eq)
  moreover have "\<forall>c. clients h c \<noteq> None \<and> length (buf (sendq h c)) = send_cap \<longrightarrow>
              clients h' c = None \<and> is_closed (sendq h' c) \<and> buf (sendq h' c) = buf (sendq h c)"
    using dom by (auto simp: eq offered_to_def)
  moreover have "\<forall>c. clients h c \<noteq> None \<and> length (buf (sendq h c)) < send_cap \<longrightarrow>
              clients h' c = clients h c \<and> \<not> is_closed (sendq h' c) \<and>
              buf (sendq h' c) = buf (sendq h c) @ [payload]"
    using dom op by (auto simp: eq offered_to_def)
  moreover have "\<forall>c. clients h c = None \<longrightarrow> clients h' c = None \<and> sendq h' c = sendq h c"
    using dom by (auto simp: eq)
  moreover have "\<forall>c. length (buf (sendq h c)) \<le> send_cap \<and> length (buf (sendq h' c)) \<le> send_cap"
    using inv inv' by (simp add: hub_inv_def)
  ultimately show ?thesis by blast
qed

lemma hub_run_append:
  "hub_run (as @ bs) h = (case hub_run as h of None \<Rightarrow> None | Some h1 \<Rightarrow> hub_run bs h1)"
  by (induction as arbitrary: h) (auto split: option.splits)

lemma fill_step:
  assumes "length bs < 256"
  shows "hub_step (HFrame (Inr p) [0]) (one_client bs) = Some (one_client (bs @ [p]))"
  using assms
  by (simp add: one_client_def range_order_def hub_frame_def offer_frame_def try_send_def
                send_cap_def)

lemma fill:
  "length bs + n \<le> 256 \<Longrightarrow>
   hub_run (replicate n (HFrame (Inr p) [0])) (one_client bs) =
     Some (one_client (bs @ replicate n p))"
proof (induction n arbitrary: bs)
  case 0
  then show ?case by simp
next
  case (Suc n)
  have "length bs < 256" using Suc.prems by simp
  from fill_step[OF this, of p] Suc.IH[of "bs @ [p]"] Suc.prems
  show ?case by (simp add: replicate_app_Cons_same)
qed

lemma crowded_hub_reached:
  "hub_run ([HGoRun, HRegister] @ replicate 256 (HFrame (Inr ''f'') [0]) @ [HRegister]) NewHub
     = Some crowded_hub"
proof -
  have a: "hub_run [HGoRun, HRegister] NewHub = Some (one_client [])"
    by (simp add: NewHub_def one_client_def new_chan_def)
  have b: "hub_run (replicate 256 (HFrame (Inr ''f'') [0])) (one_client [])
             = Some (one_client (replicate 256 ''f''))"
    using fill[of "[]" 256 "''f''"] by simp
  have c: "hub_run [HRegister] (one_client (replicate 256 ''f'')) = Some crowded_hub"
    by (simp add: crowded_hub_def one_client_def)
  show ?thesis by (simp only: hub_run_append a b c option.case)
qed

theorem broadcast_evicts_only_full_witness:
  "hub_run ([HGoRun, HRegister] @ replicate 256 (HFrame (Inr ''f'') [0]) @ [HRegister]) NewHub
     = Some crowded_hub \<and>
   clients crowded_hub 0 = Some True \<and> length (buf (sendq crowded_hub 0)) = send_cap \<and>
   clients crowded_hub 1 = Some True \<and> buf (sendq crowded_hub 1) = [] \<and>
   map_option (\<lambda>h. (clients h 0, is_closed (sendq h 0), length (buf (sendq h 0)),
                     clients h 1, is_closed (sendq h 1), buf (sendq h 1)))
     (hub_step (HFrame (Inr ''g'') [0, 1]) crowded_hub)
     = Some (None, True, 256, Some True, False, [''g''])"
proof -
  note reach = crowded_hub_reached
  have c0: "clients crowded_hub 0 = Some True" and l0: "length (buf (sendq crowded_hub 0)) = send_cap"
    and c1: "clients crowded_hub 1 = Some True" and b1: "buf (sendq crowded_hub 1) = []"
    by (simp_all add: crowded_hub_def one_client_def new_chan_def send_cap_def)
  have ro: "range_order [0, 1] crowded_hub"
    by (auto simp: range_order_def crowded_hub_def one_client_def)
  have sel: "hloc crowded_hub = HSelect" by (simp add: crowded_hub_def one_client_def)
  obtain h' where st: "hub_step (HFrame (Inr ''g'') [0, 1]) crowded_hub = Some h'"
    using ro sel by simp
  from broadcast_evicts_only_full[OF reach st]
  have full: "\<forall>c. clients crowded_hub c \<noteq> None \<and> length (buf (sendq crowded_hub c)) = send_cap \<longrightarrow>
              clients h' c = None \<and> is_closed (sendq h' c) \<and>
              buf (sendq h' c) = buf (sendq crowded_hub c)"
    and room: "\<forall>c. clients crowded_hub c \<noteq> None \<and> length (buf (sendq crowded_hub c)) < send_cap \<longrightarrow>
              clients h' c = clients crowded_hub c \<and> \<not> is_closed (sendq h' c) \<and>
              buf (sendq h' c) = buf (sendq crowded_hub c) @ [''g'']"
    by blast+
  from full c0 l0 have e0: "clients h' 0 = None \<and> is_closed (sendq h' 0) \<and>
              buf (sendq h' 0) = buf (sendq crowded_hub 0)" by blast
  have "length (buf (sendq crowded_hub 1)) < send_cap" using b1 by (simp add: send_cap_def)
  with room c1 have e1: "clients h' 1 = clients crowded_hub 1 \<and> \<not> is_closed (sendq h' 1) \<and>
              buf (sendq h' 1) = buf (sendq crowded_hub 1) @ [''g'']" by blast
  have m: "map_option (\<lambda>h. (clients h 0, is_closed (sendq h 0), length (buf (sendq h 0)),
                     clients h 1, is_closed (sendq h 1), buf (sendq h 1)))
     (hub_step (HFrame (Inr ''g'') [0, 1]) crowded_hub)
     = Some (None, True, 256, Some True, False, [''g''])"
    unfolding st using e0 e1 c1 b1 l0 by (simp add: send_cap_def)
  show ?thesis by (intro conjI reach c0 l0 c1 b1 m)
qed

text \<open>
  When \<open>json.Marshal\<close> returns an error the frame branch panics before it reaches the
  loop over \<open>h.clients\<close>: the client whose channel is full stays registered with its
  channel open, and the client with room gets nothing.
\<close>

theorem marshal_failure_evicts_nobody:
  "hub_run ([HGoRun, HRegister] @ replicate 256 (HFrame (Inr ''f'') [0]) @ [HRegister]) NewHub
     = Some crowded_hub \<and>
   clients crowded_hub 0 = Some True \<and> length (buf (sendq crowded_hub 0)) = 256 \<and>
   clients crowded_hub 1 = Some True \<and> buf (sendq crowded_hub 1) = [] \<and>
   map_option (\<lambda>h. (hloc h, clients h 0, is_closed (sendq h 0), length (buf (sendq h 0)),
                     clients h 1, is_closed (sendq h 1), buf (sendq h 1)))
     (hub_step (HFrame (Inl MarshalError) [0, 1]) crowded_hub)
     = Some (HPanicked, Some True, False, 256, Some True, False, [])"
proof -
  have ro: "range_order [0, 1] crowded_hub"
    by (auto simp: range_order_def crowded_hub_def one_client_def)
  have "clients crowded_hub 0 = Some True \<and> length (buf (sendq crowded_hub 0)) = 256 \<and>
        clients crowded_hub 1 = Some True \<and> buf (sendq crowded_hub 1) = [] \<and>
        map_option (\<lambda>h. (hloc h, clients h 0, is_closed (sendq h 0), length (buf (sendq h 0)),
                          clients h 1, is_closed (sendq h 1), buf (sendq h 1)))
          (hub_step (HFrame (Inl MarshalError) [0, 1]) crowded_hub)
          = Some (HPanicked, Some True, False, 256, Some True, False, [])"
    using ro by (simp add: hub_frame_def crowded_hub_def one_client_def new_chan_def)
  with crowded_hub_reached show ?thesis by simp
qed

section \<open>Stop requests after the stop\<close>

text \<open>
  A stop request is a send on a channel without capacity. Once the loop (or the hub) has
  returned there is no receiver: the sender is counted as blocked and the step that
  would take its request is not enabled.
\<close>

theorem stop_after_stopped_blocks_sender:
  "map_option (\<lambda>s. (loc s, stop_senders s, step exact_lib (RecvStop External) s))
     (run_from ''1000'' [GoRun, SetTargetCmd 100, Tick (reads ''100'') 5, TickAssign, ErrTest 5,
                        PulseBegin 0 True, StopArrive, RecvStop External, Cancel 0 True,
                        StopAssign, StopTest, StopArrive])
     = Some (Returned, 1, None) \<and>
   map_option (\<lambda>h. (hloc h, hub_stop_senders h, hub_step (HStop [0]) h))
     (hub_run [HGoRun, HRegister, HStopArrive, HStop [0], HStopArrive] NewHub)
     = Some (HReturned, 1, None)"
  by (simp add: run_from_def reads_def lib_eval coil_eval NewHub_def hub_stop_def
                range_order_def notify_killed_def try_send_def close_send_def new_chan_def
                send_cap_def)

lemma hub_step_returned:
  assumes "hloc h = HReturned" and "hub_step a h = Some h'"
  shows "hub_rests h h'"
  using assms by (cases a) (auto simp: hub_rests_def split: if_splits)

lemma hub_run_returned:
  "hloc h = HReturned \<Longrightarrow> hub_run as h = Some h' \<Longrightarrow> hub_rests h h'"
proof (induction as arbitrary: h)
  case Nil
  then show ?case by (simp add: hub_rests_def)
next
  case (Cons a as)
  from Cons.prems(2) obtain h1 where h1: "hub_step a h = Some h1" and r: "hub_run as h1 = Some h'"
    by (auto split: option.splits)
  have one: "hub_rests h h1" using hub_step_returned[OF Cons.prems(1) h1] .
  then have "hloc h1 = HReturned" using Cons.prems(1) by (simp add: hub_rests_def)
  from Cons.IH[OF this r] one show ?case by (auto simp: hub_rests_def)
qed

text \<open>
  Claim C8, amended. Whatever happens after the control loop or the hub has returned,
  stop requests included, changes nothing in it: the loop stays returned and does not
  panic, its files are not closed a second time and its wait group is not released
  again; the hub stays returned and does not panic, its registry is unchanged, no client
  channel is closed again, and its wait group is not released again.
\<close>

theorem stop_after_stopped_changes_nothing:
  assumes "loc s = Returned" and "run L as s = Some s'"
      and "hloc h = HReturned" and "hub_run bs h = Some h'"
  shows "loc s' = Returned \<and> Running (coil s') = Running (coil s) \<and>
         statf_closes s' = statf_closes s \<and> tempf_closes s' = tempf_closes s \<and>
         wg s' = wg s \<and>
         hloc h' = HReturned \<and> clients h' = clients h \<and>
         (\<forall>c. is_closed (sendq h' c) = is_closed (sendq h c)) \<and>
         hub_wg h' = hub_wg h"
proof -
  have "loop_parked s" using assms(1) by (simp add: loop_parked_def)
  from run_parked[OF this assms(2)] hub_run_returned[OF assms(3,4)] assms(1,3)
  show ?thesis by (simp add: loop_rests_def hub_rests_def)
qed

theorem stop_after_stopped_changes_nothing_witness:
  "run_from ''1000'' [GoRun, SetTargetCmd 100, Tick (reads ''100'') 5, TickAssign, ErrTest 5,
                     PulseBegin 0 True, StopArrive, RecvStop External, Cancel 0 True,
                     StopAssign, StopTest] = Some stopped_1000 \<and>
   loc stopped_1000 = Returned \<and>
   run exact_lib [StopArrive, StopArrive] stopped_1000 = Some (stopped_1000\<lparr>stop_senders := 2\<rparr>) \<and>
   loc (stopped_1000\<lparr>stop_senders := 2\<rparr>) = Returned \<and>
   statf_closes (stopped_1000\<lparr>stop_senders := 2\<rparr>) = 1 \<and>
   statf_written (stopped_1000\<lparr>stop_senders := 2\<rparr>) = ''10'' \<and>
   hub_run [HGoRun, HRegister, HStopArrive, HStop [0]] NewHub = Some stopped_hub \<and>
   hloc stopped_hub = HReturned \<and> is_closed (sendq stopped_hub 0) \<and>
   hub_run [HStopArrive, HDrain 0] stopped_hub
     = Some (stopped_hub\<lparr>sendq := (sendq stopped_hub)(0 := \<lparr>buf = [], is_closed = True\<rparr>),
                         hub_stop_senders := 1\<rparr>) \<and>
   hloc (stopped_hub\<lparr>sendq := (sendq stopped_hub)(0 := \<lparr>buf = [], is_closed = True\<rparr>),
                    hub_stop_senders := 1\<rparr>) = HReturned \<and>
   clients (stopped_hub\<lparr>sendq := (sendq stopped_hub)(0 := \<lparr>buf = [], is_closed = True\<rparr>),
                       hub_stop_senders := 1\<rparr>) 0 = Some True \<and>
   hub_wg (stopped_hub\<lparr>sendq := (sendq stopped_hub)(0 := \<lparr>buf = [], is_closed = True\<rparr>),
                      hub_stop_senders := 1\<rparr>) = 0"
proof -
  note scene = coil_1000_def heating_1000_def sampled_1000_def pulsing_1000_def run_from_def
    stopped_1000_def reads_def
  note hub_eval = stopped_hub_def NewHub_def hub_stop_def range_order_def notify_killed_def
    try_send_def close_send_def new_chan_def send_cap_def
  let ?h2 = "stopped_hub\<lparr>sendq := (sendq stopped_hub)(0 := \<lparr>buf = [], is_closed = True\<rparr>),
                         hub_stop_senders := 1\<rparr>"
  have r0: "run_from ''1000'' [GoRun, SetTargetCmd 100, Tick (reads ''100'') 5, TickAssign,
                     ErrTest 5, PulseBegin 0 True, StopArrive, RecvStop External, Cancel 0 True,
                     StopAssign, StopTest] = Some stopped_1000"
    by (simp add: scene lib_eval coil_eval)
  have l: "loc stopped_1000 = Returned"
    by (simp add: scene lib_eval coil_eval)
  have r: "run exact_lib [StopArrive, StopArrive] stopped_1000 = Some (stopped_1000\<lparr>stop_senders := 2\<rparr>)"
    by (simp add: scene lib_eval coil_eval)
  have c0: "statf_closes stopped_1000 = 1" and w0: "statf_written stopped_1000 = ''10''"
    by (simp_all add: scene lib_eval coil_eval)
  have h0: "hub_run [HGoRun, HRegister, HStopArrive, HStop [0]] NewHub = Some stopped_hub"
    by (simp add: hub_eval)
  have hl: "hloc stopped_hub = HReturned" and hc: "is_closed (sendq stopped_hub 0)"
    and hw: "hub_wg stopped_hub = 0" and hk: "clients stopped_hub 0 = Some True"
    by (simp_all add: stopped_hub_def)
  have hr: "hub_run [HStopArrive, HDrain 0] stopped_hub = Some ?h2"
    by (simp add: hub_eval)
  from stop_after_stopped_changes_nothing[OF l r hl hr] c0 hw hk
  have l2: "loc (stopped_1000\<lparr>stop_senders := 2\<rparr>) = Returned"
    and c: "statf_closes (stopped_1000\<lparr>stop_senders := 2\<rparr>) = 1"
    and hl2: "hloc ?h2 = HReturned"
    and hk2: "clients ?h2 0 = Some True"
    and g: "hub_wg ?h2 = 0"
    by simp_all
  have w: "statf_written (stopped_1000\<lparr>stop_senders := 2\<rparr>) = ''10''" using w0 by simp
  show ?thesis by (intro conjI r0 l r l2 c w h0 hl hc hr hl2 hk2 g)
qed

end
